theory Spec2Isabelle
  imports Complex_Main "HOL-Library.Word"
begin

section \<open>The vocabulary page \<open>src/pages/Word.tsx\<close>\<close>

text \<open>
  The component fetches random English words, checks each against a dictionary service,
  translates it into Korean and lets the user page through the resulting list.
  The embedding below follows the component function by function.

  \<^item> A JavaScript string is a sequence of UTF-16 code units, so \<open>substring\<close> and
    \<open>includes\<close> count what the source counts.
  \<^item> An awaited promise either resolves with a value or rejects with an error; every
    \<open>throw\<close> and every rejected \<open>await\<close> of the source is a \<open>Rejected\<close> branch.
  \<^item> The three remote services are not part of the repository. They are a parameter
    \<open>env\<close>: for the n-th network request of a run, and the request's arguments, the
    answer of the service. Theorems quantify over every \<open>env\<close>.
  \<^item> A number of the source is a finite double, and every such value is a rational:
    \<open>count\<close> and \<open>wordCount\<close> are of type \<open>rat\<close>, with \<open><\<close> and \<open><=\<close> as they are on
    doubles. The page stores what was typed unrounded (line 175), so a count of 2.5 is
    \<open>5 / 2\<close>. The loop counter \<open>i\<close> and the cursor only ever hold whole numbers and are of
    type \<open>int\<close>; \<open>i + 1\<close> is the exact sum, as it is on doubles while \<open>i\<close> is below \<open>2^53\<close>.
  \<^item> Responses are read at the types the TypeScript source gives them: evaluating
    \<open>words[0]\<close> or \<open>data.data.translations[0].translatedText\<close> yields a string or throws.
  \<^item> \<open>console\<close> output is left out.
\<close>

subsection \<open>Strings\<close>

type_synonym jsstring = "16 word list"

definition ascii :: "string \<Rightarrow> jsstring" where
  "ascii s = map of_char s"

text \<open>\<open>String.prototype.includes\<close>: some position of \<open>s\<close> starts with \<open>t\<close>.\<close>

fun js_includes :: "jsstring \<Rightarrow> jsstring \<Rightarrow> bool" where
  "js_includes [] t = (t = [])"
| "js_includes (c # s) t = (take (length t) (c # s) = t \<or> js_includes s t)"

text \<open>\<open>s.substring(0, n)\<close> for \<open>n \<ge> 0\<close>.\<close>

definition substring0 :: "jsstring \<Rightarrow> nat \<Rightarrow> jsstring" where
  "substring0 s n = take n s"

text \<open>The decimal digits of a natural number.\<close>

fun decimal :: "nat \<Rightarrow> jsstring" where
  "decimal n = (if n < 10 then [of_nat (48 + n)]
                else decimal (n div 10) @ [of_nat (48 + n mod 10)])"

declare decimal.simps [simp del]

text \<open>A string is falsy exactly when it is empty; an unset setting is \<open>None\<close>.\<close>

definition truthy :: "jsstring option \<Rightarrow> bool" where
  "truthy k = (case k of None \<Rightarrow> False | Some s \<Rightarrow> s \<noteq> [])"

subsection \<open>The literals of the source\<close>

definition msg_api_key_missing :: jsstring where
  \<comment> \<open>line 34, "translation API key missing"\<close>
  "msg_api_key_missing =
     [0xBC88, 0xC5ED] @ ascii '' API '' @ [0xD0A4] @ ascii '' '' @ [0xC5C6, 0xC74C]"

definition msg_api_key_invalid :: jsstring where
  \<comment> \<open>line 63, "translation failed: the API key is not valid."\<close>
  "msg_api_key_invalid =
     [0xBC88, 0xC5ED] @ ascii '' '' @ [0xC2E4, 0xD328] @ ascii '': API '' @ [0xD0A4, 0xAC00]
     @ ascii '' '' @ [0xC720, 0xD6A8, 0xD558, 0xC9C0] @ ascii '' ''
     @ [0xC54A, 0xC2B5, 0xB2C8, 0xB2E4] @ ascii ''.''"

definition msg_daily_limit :: jsstring where
  \<comment> \<open>line 65, "translation failed: daily usage limit exceeded."\<close>
  "msg_daily_limit =
     [0xBC88, 0xC5ED] @ ascii '' '' @ [0xC2E4, 0xD328] @ ascii '': '' @ [0xC77C, 0xC77C]
     @ ascii '' '' @ [0xC0AC, 0xC6A9, 0xB7C9] @ ascii '' '' @ [0xD55C, 0xB3C4] @ ascii '' ''
     @ [0xCD08, 0xACFC] @ ascii ''.''"

definition msg_translation_failed :: jsstring where
  \<comment> \<open>line 66, the prefix "translation failed: "\<close>
  "msg_translation_failed = [0xBC88, 0xC5ED] @ ascii '' '' @ [0xC2E4, 0xD328] @ ascii '': ''"

definition msg_loading_words :: jsstring where
  \<comment> \<open>line 114, "loading words..."\<close>
  "msg_loading_words =
     [0xB2E8, 0xC5B4] @ ascii '' '' @ [0xBD88, 0xB7EC, 0xC624, 0xB294] @ ascii '' ''
     @ [0xC911] @ ascii ''...''"

definition error_word :: jsstring where
  \<comment> \<open>line 145, "error word"\<close>
  "error_word = [0xC624, 0xB958] @ ascii '' '' @ [0xB2E8, 0xC5B4]"

definition msg_loading_failed :: jsstring where
  \<comment> \<open>line 146, the prefix "loading failed: "\<close>
  "msg_loading_failed = [0xB85C, 0xB529] @ ascii '' '' @ [0xC2E4, 0xD328] @ ascii '': ''"

definition msg_unknown_error :: jsstring where
  \<comment> \<open>line 146, "unknown error"\<close>
  "msg_unknown_error =
     [0xC54C] @ ascii '' '' @ [0xC218] @ ascii '' '' @ [0xC5C6, 0xB294] @ ascii '' ''
     @ [0xC624, 0xB958]"

definition msg_partial_failure :: jsstring where
  \<comment> \<open>line 148, "loading of some words failed. Please check the console."\<close>
  "msg_partial_failure =
     [0xC77C, 0xBD80] @ ascii '' '' @ [0xB2E8, 0xC5B4] @ ascii '' '' @ [0xB85C, 0xB529, 0xC5D0]
     @ ascii '' '' @ [0xC2E4, 0xD328, 0xD588, 0xC2B5, 0xB2C8, 0xB2E4] @ ascii ''. ''
     @ [0xCF58, 0xC194, 0xC744] @ ascii '' '' @ [0xD655, 0xC778, 0xD574, 0xC8FC, 0xC138, 0xC694]
     @ ascii ''.''"

definition msg_empty_list :: jsstring where
  \<comment> \<open>line 165, "failed to load words. The word list is empty."\<close>
  "msg_empty_list =
     [0xB2E8, 0xC5B4, 0xB97C] @ ascii '' '' @ [0xBD88, 0xB7EC, 0xC624, 0xB294] @ ascii '' ''
     @ [0xB370] @ ascii '' '' @ [0xC2E4, 0xD328, 0xD588, 0xC2B5, 0xB2C8, 0xB2E4] @ ascii ''. ''
     @ [0xB2E8, 0xC5B4] @ ascii '' '' @ [0xBAA9, 0xB85D, 0xC774] @ ascii '' '' @ [0xBE44, 0xC5B4]
     @ ascii '' '' @ [0xC788, 0xC2B5, 0xB2C8, 0xB2E4] @ ascii ''.''"

definition msg_no_previous :: jsstring where
  \<comment> \<open>line 214, "there is no previous word."\<close>
  "msg_no_previous =
     [0xC774, 0xC804] @ ascii '' '' @ [0xB2E8, 0xC5B4, 0xAC00] @ ascii '' ''
     @ [0xC5C6, 0xC2B5, 0xB2C8, 0xB2E4] @ ascii ''.''"

definition msg_enter_count :: jsstring where
  \<comment> \<open>line 180, "please enter a number of words of 1 or more!"\<close>
  "msg_enter_count =
     [0xD559, 0xC2B5, 0xD560] @ ascii '' '' @ [0xB2E8, 0xC5B4] @ ascii '' '' @ [0xC218, 0xB97C]
     @ ascii '' 1'' @ [0xAC1C] @ ascii '' '' @ [0xC774, 0xC0C1] @ ascii '' ''
     @ [0xC785, 0xB825, 0xD574, 0xC8FC, 0xC138, 0xC694] @ ascii ''!''"

definition msg_key_not_set :: jsstring where
  \<comment> \<open>line 185, "the Google Translate API key is not set. ..."\<close>
  "msg_key_not_set =
     ascii ''Google Translate API Key'' @ [0xAC00] @ ascii '' '' @ [0xC124, 0xC815, 0xB418, 0xC9C0]
     @ ascii '' '' @ [0xC54A, 0xC558, 0xC2B5, 0xB2C8, 0xB2E4] @ ascii ''. .env ''
     @ [0xD30C, 0xC77C, 0xC5D0] @ ascii '' VITE_GOOGLE_TRANSLATE_API_KEY'' @ [0xB97C]
     @ ascii '' '' @ [0xC124, 0xC815, 0xD574, 0xC8FC, 0xC138, 0xC694] @ ascii ''.''"

subsection \<open>Errors, promises, the remote services\<close>

datatype js_error = Error (message: jsstring)

datatype 'a outcome = Rejected js_error | Resolved 'a

text \<open>
  What the word service answers: a non-success status, or a success whose body gives
  \<open>words[0]\<close> (or throws while it is parsed and indexed).
\<close>

datatype word_response = WordNotOk | WordOk "jsstring outcome"

text \<open>
  What the translation service answers. A non-success response carries the detail the
  source puts into its error (\<open>errorData.error.message\<close> or the status text; evaluating it
  may throw); a success carries \<open>translatedText\<close> (or throws while it is read).
\<close>

datatype translate_response = TranslateNotOk "jsstring outcome" | TranslateOk "jsstring outcome"

text \<open>
  \<open>number_text\<close> is the text the runtime gives a number in a template literal
  (\<open>Number::toString\<close>) where that text is not plain decimal digits: for a number that
  is not whole, or of magnitude \<open>10^21\<close> or more (2.5 gives "2.5", \<open>10^21\<close> gives "1e+21").
\<close>

record env =
  word_api :: "nat \<Rightarrow> word_response outcome"
  dict_api :: "nat \<Rightarrow> jsstring \<Rightarrow> bool outcome"
  translate_api :: "nat \<Rightarrow> jsstring \<Rightarrow> jsstring \<Rightarrow> translate_response outcome"
  number_text :: "rat \<Rightarrow> jsstring"

text \<open>A number inside a template literal: a whole number below \<open>10^21\<close> in magnitude is
  written with all its digits, any other number as the runtime writes it.\<close>

definition number_to_string :: "env \<Rightarrow> rat \<Rightarrow> jsstring" where
  "number_to_string e q =
     (if of_int \<lfloor>q\<rfloor> = q \<and> \<bar>q\<bar> < 10 ^ 21
      then (if q < 0 then ascii ''-'' @ decimal (nat (- \<lfloor>q\<rfloor>)) else decimal (nat \<lfloor>q\<rfloor>))
      else number_text e q)"

definition msg_loading_nth :: "env \<Rightarrow> rat \<Rightarrow> jsstring" where
  \<comment> \<open>line 125, "loading word number n..."\<close>
  "msg_loading_nth e n =
     [0xB2E8, 0xC5B4] @ ascii '' '' @ number_to_string e n @ [0xAC1C, 0xC9F8] @ ascii '' ''
     @ [0xBD88, 0xB7EC, 0xC624, 0xB294] @ ascii '' '' @ [0xC911] @ ascii ''...''"

definition msg_translating :: "env \<Rightarrow> jsstring \<Rightarrow> rat \<Rightarrow> rat \<Rightarrow> jsstring" where
  \<comment> \<open>line 129, "'word' translating... (n/count)"\<close>
  "msg_translating e englishWord n count =
     [0x27] @ englishWord @ [0x27] @ ascii '' '' @ [0xBC88, 0xC5ED] @ ascii '' '' @ [0xC911]
     @ ascii ''... ('' @ number_to_string e n @ ascii ''/'' @ number_to_string e count
     @ ascii '')''"

text \<open>
  Everything the component does to the outside, newest first. \<open>Translated w k\<close> is a
  history mark: the translation client was entered with \<open>w\<close> and handed back \<open>k\<close>.
\<close>

datatype event =
    WordRequest "word_response outcome"
  | DictRequest jsstring "bool outcome"
  | TranslateRequest jsstring "translate_response outcome"
  | Translated jsstring jsstring
  | Delay nat
  | Alert jsstring

record world =
  calls :: nat
  trace :: "event list"

definition delay :: "nat \<Rightarrow> world \<Rightarrow> world" where
  "delay ms w = w\<lparr>trace := Delay ms # trace w\<rparr>"

definition alert :: "jsstring \<Rightarrow> world \<Rightarrow> world" where
  "alert s w = w\<lparr>trace := Alert s # trace w\<rparr>"

definition fetch_word :: "env \<Rightarrow> world \<Rightarrow> word_response outcome \<times> world" where
  "fetch_word e w =
     (let r = word_api e (calls w)
      in (r, w\<lparr>calls := calls w + 1, trace := WordRequest r # trace w\<rparr>))"

definition fetch_dict :: "env \<Rightarrow> jsstring \<Rightarrow> world \<Rightarrow> bool outcome \<times> world" where
  "fetch_dict e randomWord w =
     (let r = dict_api e (calls w) randomWord
      in (r, w\<lparr>calls := calls w + 1, trace := DictRequest randomWord r # trace w\<rparr>))"

definition fetch_translate ::
  "env \<Rightarrow> jsstring \<Rightarrow> jsstring \<Rightarrow> world \<Rightarrow> translate_response outcome \<times> world" where
  "fetch_translate e key englishWord w =
     (let r = translate_api e (calls w) key englishWord
      in (r, w\<lparr>calls := calls w + 1, trace := TranslateRequest englishWord r # trace w\<rparr>))"

subsection \<open>\<open>translateEnglishToKorean\<close> (lines 29 to 68)\<close>

text \<open>The \<open>try\<close> block, lines 37 to 59.\<close>

definition translate_try :: "env \<Rightarrow> jsstring \<Rightarrow> jsstring \<Rightarrow> world \<Rightarrow> jsstring outcome \<times> world" where
  "translate_try e key englishWord w =
     (case fetch_translate e key englishWord w of
        (Rejected err, w1) \<Rightarrow> (Rejected err, w1)
      | (Resolved (TranslateNotOk detail), w1) \<Rightarrow>
          (case detail of
             Rejected err \<Rightarrow> (Rejected err, w1)
           | Resolved d \<Rightarrow> (Rejected (Error (ascii ''Translation API error: '' @ d)), w1))
      | (Resolved (TranslateOk text), w1) \<Rightarrow> (text, w1))"

text \<open>The \<open>catch\<close> block, lines 60 to 67.\<close>

definition translate_catch :: "js_error \<Rightarrow> jsstring" where
  "translate_catch err =
     (if js_includes (message err) (ascii ''API key not valid'') then msg_api_key_invalid
      else if js_includes (message err) (ascii ''daily limit exceeded'') then msg_daily_limit
      else msg_translation_failed @ message err)"

definition translateEnglishToKorean ::
  "env \<Rightarrow> jsstring option \<Rightarrow> jsstring \<Rightarrow> world \<Rightarrow> jsstring outcome \<times> world" where
  "translateEnglishToKorean e GOOGLE_TRANSLATE_API_KEY englishWord w =
     (if \<not> truthy GOOGLE_TRANSLATE_API_KEY
      then (Resolved msg_api_key_missing,
            w\<lparr>trace := Translated englishWord msg_api_key_missing # trace w\<rparr>)
      else
        (case translate_try e (the GOOGLE_TRANSLATE_API_KEY) englishWord w of
           (Resolved text, w1) \<Rightarrow>
             (Resolved text, w1\<lparr>trace := Translated englishWord text # trace w1\<rparr>)
         | (Rejected err, w1) \<Rightarrow>
             (Resolved (translate_catch err),
              w1\<lparr>trace := Translated englishWord (translate_catch err) # trace w1\<rparr>)))"

subsection \<open>\<open>fetchWordFromAPI\<close> (lines 71 to 109)\<close>

text \<open>
  One pass through the \<open>try\<close> block, lines 73 to 101. \<open>Retry\<close> is the
  \<open>return fetchWordFromAPI(retryCount + 1)\<close> of lines 80 and 96, after its delay: the
  promise is returned without \<open>await\<close>, so its rejection is not caught by this frame.
  \<open>Caught\<close> is an error that reaches the \<open>catch\<close> block of this frame.
\<close>

datatype fetch_step = Return jsstring | Retry | Caught js_error

definition fetch_try :: "env \<Rightarrow> nat \<Rightarrow> world \<Rightarrow> fetch_step \<times> world" where
  "fetch_try e retryCount w =
     (case fetch_word e w of
        (Rejected err, w1) \<Rightarrow> (Caught err, w1)
      | (Resolved WordNotOk, w1) \<Rightarrow>
          (if retryCount < 3 then (Retry, delay 1000 w1)
           else (Caught (Error (ascii ''Could not fetch a random word.'')), w1))
      | (Resolved (WordOk body), w1) \<Rightarrow>
          (case body of
             Rejected err \<Rightarrow> (Caught err, w1)
           | Resolved randomWord \<Rightarrow>
               (case fetch_dict e randomWord w1 of
                  (Rejected err, w2) \<Rightarrow> (Caught err, w2)
                | (Resolved False, w2) \<Rightarrow>
                    (if retryCount < 3 then (Retry, delay 1000 w2)
                     else (Caught (Error (ascii ''Could not find a valid word.'')), w2))
                | (Resolved True, w2) \<Rightarrow> (Return randomWord, w2))))"

function fetchWordFromAPI :: "env \<Rightarrow> nat \<Rightarrow> world \<Rightarrow> jsstring outcome \<times> world" where
  "fetchWordFromAPI e retryCount w =
     (case fetch_try e retryCount w of
        (Return randomWord, w1) \<Rightarrow> (Resolved randomWord, w1)
      | (Retry, w1) \<Rightarrow> fetchWordFromAPI e (retryCount + 1) w1
      | (Caught err, w1) \<Rightarrow>
          (if retryCount < 3 then fetchWordFromAPI e (retryCount + 1) (delay 1000 w1)
           else (Rejected err, w1)))"
  by pat_completeness auto
termination
  by (relation "measure (\<lambda>(e, retryCount, w). 3 - retryCount)")
     (auto simp: fetch_try_def split: prod.splits outcome.splits word_response.splits
        bool.splits if_splits)

declare fetchWordFromAPI.simps [simp del]

subsection \<open>The component's state\<close>

record WordData =
  english :: jsstring
  korean :: jsstring

text \<open>The \<open>useState\<close> cells of lines 11 to 18.\<close>

record state =
  currentScreen :: int
  wordCount :: rat
  currentWordIndex :: int
  currentWordData :: "WordData option"
  isLoading :: bool
  loadingMessage :: jsstring
  error :: "jsstring option"
  allWordsForSession :: "WordData list"

text \<open>Reading an array element: outside the array the source gets \<open>undefined\<close>.\<close>

definition at_index :: "'a list \<Rightarrow> int \<Rightarrow> 'a option" where
  "at_index xs i = (if 0 \<le> i \<and> i < int (length xs) then Some (xs ! nat i) else None)"

subsection \<open>\<open>fetchAndTranslateWords\<close> (lines 112 to 170)\<close>

text \<open>What the loop works on: the outside world, the state cells, the local array.\<close>

record loader =
  net :: world
  ui :: state
  fetchedWords :: "WordData list"

definition MAX_ATTEMPTS_PER_WORD :: nat where
  "MAX_ATTEMPTS_PER_WORD = 5"

text \<open>The pair pushed at lines 144 to 147.\<close>

definition placeholder :: "js_error \<Rightarrow> WordData" where
  "placeholder err =
     \<lparr>english = error_word,
      korean = msg_loading_failed
        @ (if message err \<noteq> [] then substring0 (message err) 30 else msg_unknown_error)
        @ ascii ''...''\<rparr>"

text \<open>The \<open>try\<close> block of one attempt, lines 128 to 137.\<close>

definition load_try ::
  "env \<Rightarrow> jsstring option \<Rightarrow> rat \<Rightarrow> int \<Rightarrow> loader \<Rightarrow> unit outcome \<times> loader" where
  "load_try e key count i s =
     (case fetchWordFromAPI e 0 (net s) of
        (Rejected err, w1) \<Rightarrow> (Rejected err, s\<lparr>net := w1\<rparr>)
      | (Resolved englishWord, w1) \<Rightarrow>
          (let s1 = s\<lparr>net := w1,
                       ui := (ui s)\<lparr>loadingMessage :=
                                      msg_translating e englishWord (of_int (i + 1)) count\<rparr>\<rparr>
           in case translateEnglishToKorean e key englishWord w1 of
                (Rejected err, w2) \<Rightarrow> (Rejected err, s1\<lparr>net := w2\<rparr>)
              | (Resolved koreanTranslation, w2) \<Rightarrow>
                  (Resolved (),
                   s1\<lparr>net := delay 1000 w2,
                      fetchedWords := fetchedWords s1
                        @ [\<lparr>english = englishWord, korean = koreanTranslation\<rparr>]\<rparr>)))"

text \<open>The \<open>catch\<close> block of one attempt, lines 138 to 153; it gives back \<open>foundValidWord\<close>.\<close>

definition load_catch :: "js_error \<Rightarrow> nat \<Rightarrow> bool \<Rightarrow> loader \<Rightarrow> bool \<times> loader" where
  "load_catch err attempts foundValidWord s =
     (case (if attempts \<ge> MAX_ATTEMPTS_PER_WORD
            then (True, s\<lparr>fetchedWords := fetchedWords s @ [placeholder err],
                          ui := (ui s)\<lparr>error := Some msg_partial_failure\<rparr>\<rparr>)
            else (foundValidWord, s)) of
        (found, s1) \<Rightarrow> (found, s1\<lparr>net := delay 1000 (net s1)\<rparr>))"

text \<open>The \<open>while\<close> loop of one slot, lines 123 to 154, on \<open>(foundValidWord, attempts, _)\<close>.\<close>

function while_attempts ::
  "env \<Rightarrow> jsstring option \<Rightarrow> rat \<Rightarrow> int \<Rightarrow> bool \<times> nat \<times> loader \<Rightarrow> bool \<times> nat \<times> loader" where
  "while_attempts e key count i (foundValidWord, attempts, s) =
     (if \<not> foundValidWord \<and> attempts < MAX_ATTEMPTS_PER_WORD
      then
        (case load_try e key count i
                (s\<lparr>ui := (ui s)\<lparr>loadingMessage := msg_loading_nth e (of_int (i + 1))\<rparr>\<rparr>) of
           (Resolved _, s1) \<Rightarrow> while_attempts e key count i (True, attempts + 1, s1)
         | (Rejected err, s1) \<Rightarrow>
             while_attempts e key count i
               (fst (load_catch err (attempts + 1) foundValidWord s1), attempts + 1,
                snd (load_catch err (attempts + 1) foundValidWord s1)))
      else (foundValidWord, attempts, s))"
  by pat_completeness auto
termination
  by (relation "measure (\<lambda>(e, key, count, i, found, attempts, s). MAX_ATTEMPTS_PER_WORD - attempts)")
     auto

declare while_attempts.simps [simp del]

text \<open>The \<open>for\<close> loop, lines 119 to 160, from slot \<open>i\<close> on. The test \<open>i < count\<close> compares
  the whole counter with a count that need not be whole.\<close>

function for_slots :: "env \<Rightarrow> jsstring option \<Rightarrow> rat \<Rightarrow> int \<Rightarrow> loader \<Rightarrow> loader" where
  "for_slots e key count i s =
     (if of_int i < count
      then for_slots e key count (i + 1) (snd (snd (while_attempts e key count i (False, 0, s))))
      else s)"
  by pat_completeness auto
termination
  by (relation "measure (\<lambda>(e, key, count, i, s). nat (\<lceil>count\<rceil> - i))")
     (auto simp: less_ceiling_iff)

declare for_slots.simps [simp del]

definition fetchAndTranslateWords ::
  "env \<Rightarrow> jsstring option \<Rightarrow> rat \<Rightarrow> world \<times> state \<Rightarrow> world \<times> state" where
  "fetchAndTranslateWords e key count = (\<lambda>(w, v).
     (let s = for_slots e key count 0
                \<lparr>net = w,
                 ui = v\<lparr>isLoading := True, loadingMessage := msg_loading_words, error := None\<rparr>,
                 fetchedWords = []\<rparr>;
          v1 = (ui s)\<lparr>allWordsForSession := fetchedWords s\<rparr>;
          v2 = (if length (fetchedWords s) > 0
                then v1\<lparr>currentWordData := at_index (fetchedWords s) 0\<rparr>
                else v1\<lparr>error := Some msg_empty_list, currentWordData := None\<rparr>)
      in (net s, v2\<lparr>isLoading := False, loadingMessage := []\<rparr>)))"

subsection \<open>The handlers (lines 172 to 216)\<close>

text \<open>Line 175: \<open>n\<close> is \<open>Number(event.target.value)\<close>, stored as it is.\<close>

definition handleWordCountChange :: "rat \<Rightarrow> state \<Rightarrow> state" where
  "handleWordCountChange n v = v\<lparr>wordCount := n\<rparr>"

definition handleStartClick ::
  "env \<Rightarrow> jsstring option \<Rightarrow> world \<times> state \<Rightarrow> world \<times> state" where
  "handleStartClick e key = (\<lambda>(w, v).
     (if wordCount v \<le> 0 then (alert msg_enter_count w, v)
      else if \<not> truthy key then (alert msg_key_not_set w, v)
      else (case fetchAndTranslateWords e key (wordCount v) (w, v\<lparr>currentWordIndex := 0\<rparr>) of
              (w1, v1) \<Rightarrow> (w1, v1\<lparr>currentScreen := 2\<rparr>))))"

definition handleNextWord :: "state \<Rightarrow> state" where
  "handleNextWord v =
     (let nextIndex = currentWordIndex v + 1
      in if nextIndex < int (length (allWordsForSession v))
         then v\<lparr>currentWordIndex := nextIndex,
                currentWordData := at_index (allWordsForSession v) nextIndex\<rparr>
         else v\<lparr>currentScreen := 3\<rparr>)"

definition handlePreviousWord :: "state \<Rightarrow> state" where
  "handlePreviousWord v =
     (if currentWordIndex v > 0
      then (let prevIndex = currentWordIndex v - 1
            in v\<lparr>currentWordIndex := prevIndex,
                  currentWordData := at_index (allWordsForSession v) prevIndex,
                  error := None\<rparr>)
      else v\<lparr>error := Some msg_no_previous\<rparr>)"

subsection \<open>Sample services and states\<close>

text \<open>Concrete inputs on which the definitions are run: the cells as \<open>useState\<close>
  initialises them, and four behaviours of the remote services. The only number the
  runs below render that is not whole is 2.5.\<close>

definition sample_number_text :: "rat \<Rightarrow> jsstring" where
  "sample_number_text q = (if q = 5 / 2 then ascii ''2.5'' else [])"

definition initial_world :: world where
  "initial_world = \<lparr>calls = 0, trace = []\<rparr>"

definition initial_state :: state where
  "initial_state =
     \<lparr>currentScreen = 1, wordCount = 0, currentWordIndex = 0, currentWordData = None,
      isLoading = False, loadingMessage = [], error = None, allWordsForSession = []\<rparr>"

definition sample_key :: "jsstring option" where
  "sample_key = Some (ascii ''secret'')"

definition env_translation_down :: env where
  \<comment> \<open>words arrive and are in the dictionary; every translation request is refused\<close>
  "env_translation_down =
     \<lparr>word_api = (\<lambda>n. Resolved (WordOk (Resolved (ascii ''cat'')))),
      dict_api = (\<lambda>n x. Resolved True),
      translate_api = (\<lambda>n k x. Resolved (TranslateNotOk (Resolved
         (ascii ''API key not valid. Please pass a valid API key.'')))),
      number_text = sample_number_text\<rparr>"

definition env_source_down :: env where
  \<comment> \<open>the word service answers every request with a non-success status\<close>
  "env_source_down =
     \<lparr>word_api = (\<lambda>n. Resolved WordNotOk),
      dict_api = (\<lambda>n x. Resolved True),
      translate_api = (\<lambda>n k x. Resolved (TranslateOk (Resolved [0xACE0, 0xC591, 0xC774]))),
      number_text = sample_number_text\<rparr>"

definition env_offline :: env where
  \<comment> \<open>no request gets through: every \<open>fetch\<close> rejects with a network error\<close>
  "env_offline =
     \<lparr>word_api = (\<lambda>n. Rejected (Error (ascii ''NetworkError when attempting to fetch resource.''))),
      dict_api = (\<lambda>n x. Rejected (Error (ascii ''NetworkError when attempting to fetch resource.''))),
      translate_api =
        (\<lambda>n k x. Rejected (Error (ascii ''NetworkError when attempting to fetch resource.''))),
      number_text = sample_number_text\<rparr>"

definition env_dictionary_rejects :: env where
  \<comment> \<open>words arrive, the dictionary knows none of them\<close>
  "env_dictionary_rejects =
     \<lparr>word_api = (\<lambda>n. Resolved (WordOk (Resolved (ascii ''zzxq'')))),
      dict_api = (\<lambda>n x. Resolved False),
      translate_api = (\<lambda>n k x. Resolved (TranslateOk (Resolved [0xACE0, 0xC591, 0xC774]))),
      number_text = sample_number_text\<rparr>"

definition two_words :: state where
  \<comment> \<open>the browsing screen over a list of two pairs\<close>
  "two_words =
     \<lparr>currentScreen = 2, wordCount = 2, currentWordIndex = 0,
      currentWordData = Some \<lparr>english = ascii ''cat'', korean = [0xACE0, 0xC591, 0xC774]\<rparr>,
      isLoading = False, loadingMessage = [], error = None,
      allWordsForSession =
        [\<lparr>english = ascii ''cat'', korean = [0xACE0, 0xC591, 0xC774]\<rparr>,
         \<lparr>english = ascii ''dog'', korean = [0xAC1C]\<rparr>]\<rparr>"

subsection \<open>Vocabulary of the properties\<close>

text \<open>The events a run added to the trace, newest first.\<close>

definition events_since :: "world \<Rightarrow> world \<Rightarrow> event list" where
  "events_since w w' = take (length (trace w') - length (trace w)) (trace w')"

fun is_word_request :: "event \<Rightarrow> bool" where
  "is_word_request (WordRequest r) = True"
| "is_word_request ev = False"

fun is_dict_request :: "event \<Rightarrow> bool" where
  "is_dict_request (DictRequest x r) = True"
| "is_dict_request ev = False"

fun is_translate_request :: "event \<Rightarrow> bool" where
  "is_translate_request (TranslateRequest x r) = True"
| "is_translate_request ev = False"

fun is_translation :: "event \<Rightarrow> bool" where
  "is_translation (TranslateRequest x r) = True"
| "is_translation (Translated x k) = True"
| "is_translation ev = False"

text \<open>Round trips to the word service and to the dictionary service.\<close>

definition word_requests :: "event list \<Rightarrow> nat" where
  "word_requests tr = length (filter is_word_request tr)"

definition dict_requests :: "event list \<Rightarrow> nat" where
  "dict_requests tr = length (filter is_dict_request tr)"

text \<open>A request of the fetch side went through: the word service gave a word, the
  dictionary accepted it. Events of the translation side are not judged.\<close>

fun fetch_side_ok :: "event \<Rightarrow> bool" where
  "fetch_side_ok (WordRequest r) =
     (case r of Resolved (WordOk (Resolved x)) \<Rightarrow> True | _ \<Rightarrow> False)"
| "fetch_side_ok (DictRequest x r) = (r = Resolved True)"
| "fetch_side_ok ev = True"

text \<open>
  \<open>validated x tr\<close>: going back in time from the head of \<open>tr\<close>, past translation requests
  for \<open>x\<close> only, the first other event is the dictionary accepting \<open>x\<close>.
  \<open>gate_respected tr\<close>: every translation request and every call of the translation
  client in \<open>tr\<close> is for a word validated at that moment.
\<close>

fun validated :: "jsstring \<Rightarrow> event list \<Rightarrow> bool" where
  "validated x (DictRequest y r # tr) = (y = x \<and> r = Resolved True)"
| "validated x (TranslateRequest y r # tr) = (y = x \<and> validated x tr)"
| "validated x tr = False"

fun gate_respected :: "event list \<Rightarrow> bool" where
  "gate_respected [] = True"
| "gate_respected (TranslateRequest x r # tr) = (validated x tr \<and> gate_respected tr)"
| "gate_respected (Translated x k # tr) = (validated x tr \<and> gate_respected tr)"
| "gate_respected (ev # tr) = gate_respected tr"

text \<open>The cells that loading does not write while its loops run.\<close>

definition keeps :: "state \<Rightarrow> state \<Rightarrow> bool" where
  "keeps v v' \<longleftrightarrow>
     currentScreen v' = currentScreen v \<and> wordCount v' = wordCount v
     \<and> currentWordIndex v' = currentWordIndex v \<and> currentWordData v' = currentWordData v
     \<and> isLoading v' = isLoading v \<and> allWordsForSession v' = allWordsForSession v"

text \<open>
  \<open>caught_after e key count i n s\<close>: from the head of the \<open>while\<close> loop in state \<open>s\<close>, the next
  \<open>n\<close> attempts (\<open>n \<ge> 1\<close>) all end in the \<open>catch\<close> block. The value is then the error the
  last of them caught and the state in which it was caught; it is \<open>None\<close> as soon as one
  attempt gets through.
\<close>

fun caught_after ::
  "env \<Rightarrow> jsstring option \<Rightarrow> rat \<Rightarrow> int \<Rightarrow> nat \<Rightarrow> loader \<Rightarrow> (js_error \<times> loader) option" where
  "caught_after e key count i 0 s = None"
| "caught_after e key count i (Suc n) s =
     (case load_try e key count i
             (s\<lparr>ui := (ui s)\<lparr>loadingMessage := msg_loading_nth e (of_int (i + 1))\<rparr>\<rparr>) of
        (Resolved u, s1) \<Rightarrow> None
      | (Rejected err, s1) \<Rightarrow>
          (if n = 0 then Some (err, s1)
           else caught_after e key count i n (s1\<lparr>net := delay 1000 (net s1)\<rparr>)))"

text \<open>While browsing, the cursor is inside the list and the word shown is the one at
  the cursor.\<close>

definition browsing_inv :: "state \<Rightarrow> bool" where
  "browsing_inv v \<longleftrightarrow>
     0 \<le> currentWordIndex v \<and> currentWordIndex v < int (length (allWordsForSession v))
     \<and> currentWordData v = Some (allWordsForSession v ! nat (currentWordIndex v))"

section \<open>Auxiliary facts\<close>

lemma js_includes_iff: "js_includes s t \<longleftrightarrow> (\<exists>ps ss. s = ps @ t @ ss)"
proof (induction s)
  case Nil
  show ?case by auto
next
  case (Cons c s)
  show ?case
  proof
    assume "js_includes (c # s) t"
    then consider "take (length t) (c # s) = t" | "js_includes s t" by auto
    then show "\<exists>ps ss. c # s = ps @ t @ ss"
    proof cases
      case 1
      have "c # s = [] @ take (length t) (c # s) @ drop (length t) (c # s)"
        by (simp only: append_Nil append_take_drop_id)
      with 1 show ?thesis by metis
    next
      case 2
      with Cons.IH obtain ps ss where "s = ps @ t @ ss" by blast
      then have "c # s = (c # ps) @ t @ ss" by simp
      then show ?thesis by blast
    qed
  next
    assume "\<exists>ps ss. c # s = ps @ t @ ss"
    then obtain ps ss where eq: "c # s = ps @ t @ ss" by blast
    show "js_includes (c # s) t"
    proof (cases ps)
      case Nil
      with eq have "take (length t) (c # s) = t" by simp
      then show ?thesis by simp
    next
      case (Cons p ps')
      with eq have "s = ps' @ t @ ss" by simp
      with Cons.IH have "js_includes s t" by blast
      then show ?thesis by simp
    qed
  qed
qed

lemma events_since_append: "trace w' = new @ trace w \<Longrightarrow> events_since w w' = new"
  by (simp add: events_since_def)

lemma word_requests_append [simp]: "word_requests (a @ b) = word_requests a + word_requests b"
  by (simp add: word_requests_def)

lemma dict_requests_append [simp]: "dict_requests (a @ b) = dict_requests a + dict_requests b"
  by (simp add: dict_requests_def)

lemma word_requests_simps [simp]:
  "word_requests [] = 0"
  "word_requests (ev # tr) = (if is_word_request ev then 1 else 0) + word_requests tr"
  by (simp_all add: word_requests_def)

lemma dict_requests_simps [simp]:
  "dict_requests [] = 0"
  "dict_requests (ev # tr) = (if is_dict_request ev then 1 else 0) + dict_requests tr"
  by (simp_all add: dict_requests_def)

lemma fetch_try_events:
  assumes "fetch_try e r w = (step, w')"
  shows "\<exists>new. trace w' = new @ trace w \<and> word_requests new = 1 \<and> dict_requests new \<le> 1
           \<and> \<not> list_ex is_translation new
           \<and> calls w' = calls w + word_requests new + dict_requests new
           \<and> (case step of
                 Return x \<Rightarrow> list_all fetch_side_ok new \<and> (\<exists>rest. new = DictRequest x (Resolved True) # rest)
               | Retry \<Rightarrow> r < 3 \<and> \<not> list_all fetch_side_ok new
               | Caught err \<Rightarrow> \<not> list_all fetch_side_ok new)"
  using assms
  by (auto simp: fetch_try_def fetch_word_def fetch_dict_def delay_def Let_def
      split: prod.splits outcome.splits word_response.splits bool.splits if_splits)

lemma fetchWordFromAPI_events:
  "fetchWordFromAPI e r w = (res, w') \<Longrightarrow>
   \<exists>new. trace w' = new @ trace w \<and> 1 \<le> word_requests new
     \<and> (r \<le> 3 \<longrightarrow> word_requests new \<le> 4 - r)
     \<and> dict_requests new \<le> word_requests new
     \<and> \<not> list_ex is_translation new
     \<and> calls w' = calls w + word_requests new + dict_requests new
     \<and> (list_all fetch_side_ok new \<longrightarrow> word_requests new = 1)
     \<and> (case res of
           Resolved x \<Rightarrow> (\<exists>rest. new = DictRequest x (Resolved True) # rest)
         | Rejected err \<Rightarrow> (r \<le> 3 \<longrightarrow> word_requests new = 4 - r)
             \<and> \<not> list_all fetch_side_ok new)"
proof (induction e r w arbitrary: res w' rule: fetchWordFromAPI.induct)
  case (1 e r w)
  obtain step w1 where st: "fetch_try e r w = (step, w1)"
    by (cases "fetch_try e r w")
  from fetch_try_events [OF st] obtain n1 where
    n1: "trace w1 = n1 @ trace w" "word_requests n1 = 1" "dict_requests n1 \<le> 1"
      "\<not> list_ex is_translation n1" "calls w1 = calls w + word_requests n1 + dict_requests n1"
    and n1_step: "case step of
        Return x \<Rightarrow> list_all fetch_side_ok n1 \<and> (\<exists>rest. n1 = DictRequest x (Resolved True) # rest)
      | Retry \<Rightarrow> r < 3 \<and> \<not> list_all fetch_side_ok n1
      | Caught err \<Rightarrow> \<not> list_all fetch_side_ok n1"
    by blast
  show ?case
  proof (cases step)
    case (Return x)
    with st "1.prems" have "res = Resolved x" "w' = w1"
      by (simp_all add: fetchWordFromAPI.simps)
    with n1 n1_step Return show ?thesis
      by (intro exI [of _ n1]) auto
  next
    case Retry
    with n1_step have r3: "r < 3" and bad: "\<not> list_all fetch_side_ok n1" by simp_all
    from st Retry "1.prems" have rec: "fetchWordFromAPI e (r + 1) w1 = (res, w')"
      by (simp add: fetchWordFromAPI.simps)
    from "1.IH"(1) [OF st [symmetric] Retry rec] obtain n2 where
      n2: "trace w' = n2 @ trace w1" "1 \<le> word_requests n2"
        "r + 1 \<le> 3 \<longrightarrow> word_requests n2 \<le> 4 - (r + 1)"
        "dict_requests n2 \<le> word_requests n2" "\<not> list_ex is_translation n2"
        "calls w' = calls w1 + word_requests n2 + dict_requests n2"
      and n2_res: "case res of
          Resolved x \<Rightarrow> (\<exists>rest. n2 = DictRequest x (Resolved True) # rest)
        | Rejected err \<Rightarrow> (r + 1 \<le> 3 \<longrightarrow> word_requests n2 = 4 - (r + 1))
            \<and> \<not> list_all fetch_side_ok n2"
      by blast
    from n1 n2 r3 bad n2_res show ?thesis
      by (intro exI [of _ "n2 @ n1"]) (auto split: outcome.splits)
  next
    case (Caught err)
    with n1_step have bad: "\<not> list_all fetch_side_ok n1" by simp
    show ?thesis
    proof (cases "r < 3")
      case True
      from st Caught True "1.prems"
      have rec: "fetchWordFromAPI e (r + 1) (delay 1000 w1) = (res, w')"
        by (simp add: fetchWordFromAPI.simps)
      from "1.IH"(2) [OF st [symmetric] Caught True rec] obtain n2 where
        n2: "trace w' = n2 @ trace (delay 1000 w1)" "1 \<le> word_requests n2"
          "r + 1 \<le> 3 \<longrightarrow> word_requests n2 \<le> 4 - (r + 1)"
          "dict_requests n2 \<le> word_requests n2" "\<not> list_ex is_translation n2"
          "calls w' = calls (delay 1000 w1) + word_requests n2 + dict_requests n2"
        and n2_res: "case res of
            Resolved x \<Rightarrow> (\<exists>rest. n2 = DictRequest x (Resolved True) # rest)
          | Rejected err \<Rightarrow> (r + 1 \<le> 3 \<longrightarrow> word_requests n2 = 4 - (r + 1))
              \<and> \<not> list_all fetch_side_ok n2"
        by blast
      from n1 n2 True bad n2_res show ?thesis
        by (intro exI [of _ "n2 @ Delay 1000 # n1"])
           (auto simp: delay_def split: outcome.splits)
    next
      case False
      with st Caught "1.prems" have "res = Rejected err" "w' = w1"
        by (simp_all add: fetchWordFromAPI.simps)
      with n1 bad False show ?thesis
        by (intro exI [of _ n1]) auto
    qed
  qed
qed

lemma validated_append: "validated x a \<Longrightarrow> validated x (a @ b)"
  by (induction x a rule: validated.induct) auto

lemma gate_respected_append:
  "gate_respected a \<Longrightarrow> gate_respected b \<Longrightarrow> gate_respected (a @ b)"
  by (induction a rule: gate_respected.induct) (auto simp: validated_append)

lemma gate_respected_fetch_only: "\<not> list_ex is_translation a \<Longrightarrow> gate_respected a"
  by (induction a rule: gate_respected.induct) auto

lemma translate_resolves:
  "\<exists>k w'. translateEnglishToKorean e key x w = (Resolved k, w')"
  by (auto simp: translateEnglishToKorean_def split: prod.splits outcome.splits)

lemma translate_events:
  assumes "translateEnglishToKorean e key x w = (res, w')"
  shows "\<exists>k. res = Resolved k \<and>
           (if truthy key
            then (\<exists>r. trace w' = Translated x k # TranslateRequest x r # trace w)
                 \<and> calls w' = calls w + 1
            else trace w' = Translated x k # trace w \<and> calls w' = calls w
                 \<and> k = msg_api_key_missing)"
  using assms
  by (auto simp: translateEnglishToKorean_def translate_try_def fetch_translate_def Let_def
      split: prod.splits outcome.splits translate_response.splits if_splits)

lemma keeps_refl [simp]: "keeps v v"
  by (simp add: keeps_def)

lemma keeps_trans: "keeps v v' \<Longrightarrow> keeps v' v'' \<Longrightarrow> keeps v v''"
  by (simp add: keeps_def)

lemma keeps_update [simp]:
  "keeps v (v'\<lparr>loadingMessage := m\<rparr>) = keeps v v'"
  "keeps v (v'\<lparr>error := x\<rparr>) = keeps v v'"
  "keeps (v\<lparr>loadingMessage := m\<rparr>) v' = keeps v v'"
  "keeps (v\<lparr>error := x\<rparr>) v' = keeps v v'"
  by (simp_all add: keeps_def)

lemma load_try_events:
  assumes "load_try e key count i s = (res, s')"
  shows "\<exists>new. trace (net s') = new @ trace (net s) \<and> gate_respected new
           \<and> 1 \<le> word_requests new \<and> word_requests new \<le> 4
           \<and> (list_all fetch_side_ok new \<longrightarrow> word_requests new = 1)
           \<and> keeps (ui s) (ui s')
           \<and> (case res of
                 Resolved u \<Rightarrow> (\<exists>x k. fetchedWords s' = fetchedWords s @ [\<lparr>english = x, korean = k\<rparr>]
                                  \<and> Translated x k \<in> set new
                                  \<and> (\<not> truthy key \<longrightarrow> k = msg_api_key_missing))
               | Rejected err \<Rightarrow> fetchedWords s' = fetchedWords s
                                  \<and> \<not> list_all fetch_side_ok new
                                  \<and> word_requests new = 4)"
proof -
  obtain r1 w1 where f: "fetchWordFromAPI e 0 (net s) = (r1, w1)"
    by (cases "fetchWordFromAPI e 0 (net s)")
  from fetchWordFromAPI_events [OF f] obtain n1 where
    n1: "trace w1 = n1 @ trace (net s)" "1 \<le> word_requests n1"
      "0 \<le> (3::nat) \<longrightarrow> word_requests n1 \<le> 4 - 0"
      "\<not> list_ex is_translation n1" "list_all fetch_side_ok n1 \<longrightarrow> word_requests n1 = 1"
    and n1_full: "case r1 of
        Resolved x \<Rightarrow> (\<exists>rest. n1 = DictRequest x (Resolved True) # rest)
      | Rejected err \<Rightarrow> (0 \<le> (3::nat) \<longrightarrow> word_requests n1 = 4 - 0)
          \<and> \<not> list_all fetch_side_ok n1"
    by blast
  from n1_full have n1_res: "case r1 of
        Resolved x \<Rightarrow> (\<exists>rest. n1 = DictRequest x (Resolved True) # rest)
      | Rejected err \<Rightarrow> \<not> list_all fetch_side_ok n1 \<and> word_requests n1 = 4"
    by (simp split: outcome.splits)
  show ?thesis
  proof (cases r1)
    case (Rejected err)
    with f assms have "res = Rejected err" "s' = s\<lparr>net := w1\<rparr>"
      by (simp_all add: load_try_def)
    with n1 n1_res Rejected show ?thesis
      by (intro exI [of _ n1]) (auto simp: gate_respected_fetch_only)
  next
    case (Resolved x)
    with n1_res obtain rest where rest: "n1 = DictRequest x (Resolved True) # rest" by auto
    obtain r2 w2 where t: "translateEnglishToKorean e key x w1 = (r2, w2)"
      by (cases "translateEnglishToKorean e key x w1")
    from translate_events [OF t] obtain k where
      k: "r2 = Resolved k"
        "if truthy key
         then (\<exists>r. trace w2 = Translated x k # TranslateRequest x r # trace w1)
              \<and> calls w2 = calls w1 + 1
         else trace w2 = Translated x k # trace w1 \<and> calls w2 = calls w1
              \<and> k = msg_api_key_missing"
      by blast
    from f t Resolved k(1) assms have res: "res = Resolved ()"
      and s': "s' = s\<lparr>net := delay 1000 w2,
                 ui := (ui s)\<lparr>loadingMessage := msg_translating e x (of_int (i + 1)) count\<rparr>,
                 fetchedWords := fetchedWords s @ [\<lparr>english = x, korean = k\<rparr>]\<rparr>"
      by (auto simp: load_try_def Let_def)
    have g1: "gate_respected n1" using n1(4) by (rule gate_respected_fetch_only)
    show ?thesis
    proof (cases "truthy key")
      case True
      with k(2) obtain r where tr: "trace w2 = Translated x k # TranslateRequest x r # trace w1"
        by auto
      let ?new = "Delay 1000 # Translated x k # TranslateRequest x r # n1"
      have "trace (net s') = ?new @ trace (net s)"
        using s' tr n1(1) by (simp add: delay_def)
      moreover have "gate_respected ?new" using g1 rest by simp
      moreover have "word_requests ?new = word_requests n1" by simp
      moreover have "list_all fetch_side_ok ?new = list_all fetch_side_ok n1" by simp
      moreover have "Translated x k \<in> set ?new" by simp
      ultimately show ?thesis using res s' n1 True
        by (intro exI [of _ ?new]) (simp del: word_requests_simps)
    next
      case False
      with k(2) have tr: "trace w2 = Translated x k # trace w1" and km: "k = msg_api_key_missing"
        by auto
      let ?new = "Delay 1000 # Translated x k # n1"
      have "trace (net s') = ?new @ trace (net s)"
        using s' tr n1(1) by (simp add: delay_def)
      moreover have "gate_respected ?new" using g1 rest by simp
      moreover have "word_requests ?new = word_requests n1" by simp
      moreover have "list_all fetch_side_ok ?new = list_all fetch_side_ok n1" by simp
      moreover have "Translated x k \<in> set ?new" by simp
      ultimately show ?thesis using res s' n1 km
        by (intro exI [of _ ?new]) (simp del: word_requests_simps)
    qed
  qed
qed

lemma while_attempts_slot:
  assumes "while_attempts e key count i (False, a, s) = (found', a', s')"
    and "a < MAX_ATTEMPTS_PER_WORD"
  shows "\<exists>new p. trace (net s') = new @ trace (net s) \<and> gate_respected new
      \<and> found' \<and> a < a' \<and> a' \<le> MAX_ATTEMPTS_PER_WORD
      \<and> fetchedWords s' = fetchedWords s @ [p]
      \<and> keeps (ui s) (ui s')
      \<and> 1 \<le> word_requests new \<and> word_requests new \<le> 4 * (MAX_ATTEMPTS_PER_WORD - a)
      \<and> (list_all fetch_side_ok new \<longrightarrow> word_requests new = 1)
      \<and> (case caught_after e key count i (MAX_ATTEMPTS_PER_WORD - a) s of
           Some (err, s5) \<Rightarrow>
             a' = MAX_ATTEMPTS_PER_WORD
             \<and> s' = snd (load_catch err MAX_ATTEMPTS_PER_WORD False s5)
             \<and> fetchedWords s5 = fetchedWords s
             \<and> p = placeholder err
             \<and> error (ui s') = Some msg_partial_failure \<and> \<not> list_all fetch_side_ok new
             \<and> word_requests new = 4 * (MAX_ATTEMPTS_PER_WORD - a)
         | None \<Rightarrow>
             Translated (english p) (korean p) \<in> set new \<and> error (ui s') = error (ui s)
             \<and> (\<not> truthy key \<longrightarrow> korean p = msg_api_key_missing))"
  using assms
proof (induction "MAX_ATTEMPTS_PER_WORD - a" arbitrary: a s)
  case 0
  then show ?case by simp
next
  case (Suc n)
  let ?s0 = "s\<lparr>ui := (ui s)\<lparr>loadingMessage := msg_loading_nth e (of_int (i + 1))\<rparr>\<rparr>"
  obtain r1 s1 where lt: "load_try e key count i ?s0 = (r1, s1)"
    by (cases "load_try e key count i ?s0")
  from load_try_events [OF lt] obtain n1 where
    n1: "trace (net s1) = n1 @ trace (net s)" "gate_respected n1" "1 \<le> word_requests n1"
      "word_requests n1 \<le> 4" "list_all fetch_side_ok n1 \<longrightarrow> word_requests n1 = 1"
      "keeps (ui s) (ui s1)"
    and n1_res: "case r1 of
        Resolved u \<Rightarrow> (\<exists>x k. fetchedWords s1 = fetchedWords ?s0 @ [\<lparr>english = x, korean = k\<rparr>]
                         \<and> Translated x k \<in> set n1
                         \<and> (\<not> truthy key \<longrightarrow> k = msg_api_key_missing))
      | Rejected err \<Rightarrow> fetchedWords s1 = fetchedWords ?s0 \<and> \<not> list_all fetch_side_ok n1
                         \<and> word_requests n1 = 4"
    by auto
  from Suc.hyps(2) have m: "MAX_ATTEMPTS_PER_WORD - a = Suc n" by simp
  show ?case
  proof (cases r1)
    case (Resolved u)
    with n1_res obtain x k where
      xk: "fetchedWords s1 = fetchedWords s @ [\<lparr>english = x, korean = k\<rparr>]"
        "Translated x k \<in> set n1" "\<not> truthy key \<longrightarrow> k = msg_api_key_missing"
      by auto
    from Suc.prems lt Resolved have res: "found' = True" "a' = a + 1" "s' = s1"
      by (simp_all add: while_attempts.simps [of e key count i False a s]
          while_attempts.simps [of e key count i True])
    have nf: "caught_after e key count i (MAX_ATTEMPTS_PER_WORD - a) s = None"
      using m lt Resolved by simp
    from lt Resolved have er: "error (ui s1) = error (ui s)"
      by (auto simp: load_try_def Let_def split: prod.splits outcome.splits)
    show ?thesis
      using res n1 xk nf er Suc.prems(2)
      by (intro exI [of _ n1] exI [of _ "\<lparr>english = x, korean = k\<rparr>"]) simp
  next
    case (Rejected err)
    with n1_res have fw: "fetchedWords s1 = fetchedWords s"
      and bad: "\<not> list_all fetch_side_ok n1" and four: "word_requests n1 = 4" by auto
    from lt Rejected have er: "error (ui s1) = error (ui s)"
      by (auto simp: load_try_def Let_def split: prod.splits outcome.splits)
    show ?thesis
    proof (cases "a + 1 \<ge> MAX_ATTEMPTS_PER_WORD")
      case True
      let ?s2 = "s1\<lparr>fetchedWords := fetchedWords s1 @ [placeholder err],
                    ui := (ui s1)\<lparr>error := Some msg_partial_failure\<rparr>\<rparr>"
      from True Suc.prems(2) have a5: "a + 1 = MAX_ATTEMPTS_PER_WORD" by simp
      then have m0: "MAX_ATTEMPTS_PER_WORD - a = Suc 0" by simp
      have lc: "load_catch err MAX_ATTEMPTS_PER_WORD False s1
          = (True, ?s2\<lparr>net := delay 1000 (net ?s2)\<rparr>)"
        by (simp add: load_catch_def)
      from Suc.prems lt Rejected lc a5
      have res: "found' = True" "a' = a + 1" "s' = ?s2\<lparr>net := delay 1000 (net ?s2)\<rparr>"
        by (simp_all add: while_attempts.simps [of e key count i False a s]
            while_attempts.simps [of e key count i True])
      have af: "caught_after e key count i (MAX_ATTEMPTS_PER_WORD - a) s = Some (err, s1)"
        using m0 lt Rejected by simp
      have st: "s' = snd (load_catch err MAX_ATTEMPTS_PER_WORD False s1)"
        using res(3) lc by simp
      let ?new = "Delay 1000 # n1"
      have "trace (net s') = ?new @ trace (net s)" using res n1(1) by (simp add: delay_def)
      moreover have "gate_respected ?new" using n1(2) by simp
      moreover have "word_requests ?new = word_requests n1" by simp
      moreover have "list_all fetch_side_ok ?new = list_all fetch_side_ok n1" by simp
      moreover have "fetchedWords s' = fetchedWords s @ [placeholder err]" using res fw by simp
      moreover have "keeps (ui s) (ui s')" using res n1(6) by simp
      moreover have "error (ui s') = Some msg_partial_failure" using res by simp
      ultimately show ?thesis
        using res(1,2) a5 af st fw bad four m0
        by (intro exI [of _ ?new] exI [of _ "placeholder err"])
           (simp del: word_requests_simps)
    next
      case False
      then have a1: "a + 1 < MAX_ATTEMPTS_PER_WORD" by simp
      let ?s2 = "s1\<lparr>net := delay 1000 (net s1)\<rparr>"
      from False have lc: "load_catch err (a + 1) False s1 = (False, ?s2)"
        by (simp add: load_catch_def)
      from Suc.prems lt Rejected lc
      have rec: "while_attempts e key count i (False, a + 1, ?s2) = (found', a', s')"
        by (simp add: while_attempts.simps [of e key count i False a s])
      from Suc.hyps(2) have n: "n = MAX_ATTEMPTS_PER_WORD - (a + 1)" by simp
      from a1 n have n0: "n \<noteq> 0" by simp
      from Suc.hyps(1) [OF n rec a1] obtain n2 p where
        n2: "trace (net s') = n2 @ trace (net ?s2)" "gate_respected n2" "found'" "a + 1 < a'"
          "a' \<le> MAX_ATTEMPTS_PER_WORD" "fetchedWords s' = fetchedWords ?s2 @ [p]"
          "keeps (ui ?s2) (ui s')" "1 \<le> word_requests n2"
          "word_requests n2 \<le> 4 * (MAX_ATTEMPTS_PER_WORD - (a + 1))"
        and n2_case: "case caught_after e key count i (MAX_ATTEMPTS_PER_WORD - (a + 1)) ?s2 of
           Some (err, s5) \<Rightarrow>
             a' = MAX_ATTEMPTS_PER_WORD
             \<and> s' = snd (load_catch err MAX_ATTEMPTS_PER_WORD False s5)
             \<and> fetchedWords s5 = fetchedWords ?s2
             \<and> p = placeholder err
             \<and> error (ui s') = Some msg_partial_failure \<and> \<not> list_all fetch_side_ok n2
             \<and> word_requests n2 = 4 * (MAX_ATTEMPTS_PER_WORD - (a + 1))
         | None \<Rightarrow>
             Translated (english p) (korean p) \<in> set n2 \<and> error (ui s') = error (ui ?s2)
             \<and> (\<not> truthy key \<longrightarrow> korean p = msg_api_key_missing)"
        by blast
      have af: "caught_after e key count i (MAX_ATTEMPTS_PER_WORD - a) s
                = caught_after e key count i (MAX_ATTEMPTS_PER_WORD - (a + 1)) ?s2"
        using m lt Rejected n n0 by simp
      let ?new = "n2 @ Delay 1000 # n1"
      have c1: "trace (net s') = ?new @ trace (net s)" using n2(1) n1(1) by (simp add: delay_def)
      have c2: "gate_respected ?new"
        using n2(2) n1(2) by (intro gate_respected_append) simp_all
      have c3: "word_requests ?new = word_requests n2 + 4" using four by simp
      have c4: "\<not> list_all fetch_side_ok ?new" using bad by simp
      have c5: "fetchedWords s' = fetchedWords s @ [p]" using n2(6) fw by simp
      have c6: "keeps (ui s) (ui s')" using n2(7) n1(6) by (auto intro: keeps_trans)
      have c7: "set n2 \<subseteq> set ?new" by auto
      have c8: "4 * (MAX_ATTEMPTS_PER_WORD - a) = 4 * (MAX_ATTEMPTS_PER_WORD - (a + 1)) + 4"
        using a1 by simp
      have c9: "case caught_after e key count i (MAX_ATTEMPTS_PER_WORD - a) s of
           Some (err, s5) \<Rightarrow>
             a' = MAX_ATTEMPTS_PER_WORD
             \<and> s' = snd (load_catch err MAX_ATTEMPTS_PER_WORD False s5)
             \<and> fetchedWords s5 = fetchedWords s
             \<and> p = placeholder err
             \<and> error (ui s') = Some msg_partial_failure \<and> \<not> list_all fetch_side_ok ?new
             \<and> word_requests ?new = 4 * (MAX_ATTEMPTS_PER_WORD - a)
         | None \<Rightarrow>
             Translated (english p) (korean p) \<in> set ?new \<and> error (ui s') = error (ui s)
             \<and> (\<not> truthy key \<longrightarrow> korean p = msg_api_key_missing)"
        unfolding af using n2_case c3 c4 c7 c8 fw er
        by (auto simp del: word_requests_simps word_requests_append split: option.splits)
      have c10: "word_requests ?new \<le> 4 * (MAX_ATTEMPTS_PER_WORD - a)"
        using c3 c8 n2(9) by simp
      have c11: "1 \<le> word_requests ?new" using c3 by simp
      have c12: "list_all fetch_side_ok ?new \<longrightarrow> word_requests ?new = 1" using c4 by blast
      have c13: "a < a'" using n2(4) by simp
      show ?thesis
        by (rule exI [of _ ?new], rule exI [of _ p])
           (intro conjI c1 c2 n2(3) c13 n2(5) c5 c6 c11 c10 c12 c9)
    qed
  qed
qed

lemma for_slots_events:
  "for_slots e key count i s = s' \<Longrightarrow>
   \<exists>new ps. trace (net s') = new @ trace (net s) \<and> gate_respected new
     \<and> fetchedWords s' = fetchedWords s @ ps \<and> length ps = nat (\<lceil>count\<rceil> - i)
     \<and> (\<forall>p\<in>set ps. (\<exists>err. p = placeholder err) \<or> Translated (english p) (korean p) \<in> set new)
     \<and> (\<not> truthy key \<longrightarrow>
          (\<forall>p\<in>set ps. (\<exists>err. p = placeholder err) \<or> korean p = msg_api_key_missing))
     \<and> keeps (ui s) (ui s')
     \<and> word_requests new \<le> 20 * nat (\<lceil>count\<rceil> - i)
     \<and> (error (ui s') = error (ui s) \<or> error (ui s') = Some msg_partial_failure)
     \<and> (list_all fetch_side_ok new \<longrightarrow>
          word_requests new = nat (\<lceil>count\<rceil> - i) \<and> error (ui s') = error (ui s)
          \<and> (\<forall>p\<in>set ps. Translated (english p) (korean p) \<in> set new
                \<and> (\<not> truthy key \<longrightarrow> korean p = msg_api_key_missing)))"
proof (induction e key count i s arbitrary: s' rule: for_slots.induct)
  case (1 e key count i s)
  show ?case
  proof (cases "of_int i < count")
    case False
    then have "\<lceil>count\<rceil> \<le> i" by (simp add: ceiling_le_iff)
    moreover from False "1.prems" have "s' = s" by (simp add: for_slots.simps)
    ultimately show ?thesis
      by (intro exI [of _ "[]"]) simp
  next
    case True
    then have lt: "i < \<lceil>count\<rceil>" by (simp add: less_ceiling_iff)
    obtain f a s1 where wa: "while_attempts e key count i (False, 0, s) = (f, a, s1)"
      by (cases "while_attempts e key count i (False, 0, s)")
    have "0 < MAX_ATTEMPTS_PER_WORD" by (simp add: MAX_ATTEMPTS_PER_WORD_def)
    from while_attempts_slot [OF wa this] obtain n1 p where
      n1: "trace (net s1) = n1 @ trace (net s)" "gate_respected n1"
        "fetchedWords s1 = fetchedWords s @ [p]" "keeps (ui s) (ui s1)"
        "word_requests n1 \<le> 4 * (MAX_ATTEMPTS_PER_WORD - 0)"
        "list_all fetch_side_ok n1 \<longrightarrow> word_requests n1 = 1"
      and n1_case: "case caught_after e key count i (MAX_ATTEMPTS_PER_WORD - 0) s of
           Some (err, s5) \<Rightarrow>
             a = MAX_ATTEMPTS_PER_WORD
             \<and> s1 = snd (load_catch err MAX_ATTEMPTS_PER_WORD False s5)
             \<and> fetchedWords s5 = fetchedWords s
             \<and> p = placeholder err
             \<and> error (ui s1) = Some msg_partial_failure \<and> \<not> list_all fetch_side_ok n1
             \<and> word_requests n1 = 4 * (MAX_ATTEMPTS_PER_WORD - 0)
         | None \<Rightarrow>
             Translated (english p) (korean p) \<in> set n1 \<and> error (ui s1) = error (ui s)
             \<and> (\<not> truthy key \<longrightarrow> korean p = msg_api_key_missing)"
      by blast
    from n1_case have n1_if:
      "((\<exists>err. p = placeholder err) \<and> error (ui s1) = Some msg_partial_failure
          \<and> \<not> list_all fetch_side_ok n1)
       \<or> (Translated (english p) (korean p) \<in> set n1 \<and> error (ui s1) = error (ui s)
          \<and> (\<not> truthy key \<longrightarrow> korean p = msg_api_key_missing))"
      by (auto split: option.splits)
    from "1.prems" True wa have rec: "for_slots e key count (i + 1) s1 = s'"
      by (simp add: for_slots.simps [of e key count i s])
    have s1: "s1 = snd (snd (while_attempts e key count i (False, 0, s)))"
      using wa by simp
    from "1.IH" [OF True, folded s1, OF rec] obtain n2 ps where
      n2: "trace (net s') = n2 @ trace (net s1)" "gate_respected n2"
        "fetchedWords s' = fetchedWords s1 @ ps" "length ps = nat (\<lceil>count\<rceil> - (i + 1))"
        "\<forall>p\<in>set ps. (\<exists>err. p = placeholder err) \<or> Translated (english p) (korean p) \<in> set n2"
        "\<not> truthy key \<longrightarrow>
          (\<forall>p\<in>set ps. (\<exists>err. p = placeholder err) \<or> korean p = msg_api_key_missing)"
        "keeps (ui s1) (ui s')"
        "word_requests n2 \<le> 20 * nat (\<lceil>count\<rceil> - (i + 1))"
        "error (ui s') = error (ui s1) \<or> error (ui s') = Some msg_partial_failure"
        "list_all fetch_side_ok n2 \<longrightarrow>
          word_requests n2 = nat (\<lceil>count\<rceil> - (i + 1)) \<and> error (ui s') = error (ui s1)
          \<and> (\<forall>p\<in>set ps. Translated (english p) (korean p) \<in> set n2
                \<and> (\<not> truthy key \<longrightarrow> korean p = msg_api_key_missing))"
      by blast
    have len: "nat (\<lceil>count\<rceil> - i) = Suc (nat (\<lceil>count\<rceil> - (i + 1)))" using lt by simp
    let ?new = "n2 @ n1"
    have c1: "trace (net s') = ?new @ trace (net s)" using n1(1) n2(1) by simp
    have c2: "gate_respected ?new" using n1(2) n2(2) by (rule gate_respected_append [rotated])
    have c3: "fetchedWords s' = fetchedWords s @ (p # ps)" using n1(3) n2(3) by simp
    have c4: "length (p # ps) = nat (\<lceil>count\<rceil> - i)" using n2(4) len by simp
    have c5: "\<forall>q\<in>set (p # ps). (\<exists>err. q = placeholder err)
                \<or> Translated (english q) (korean q) \<in> set ?new"
      using n2(5) n1_if by auto
    have c6: "\<not> truthy key \<longrightarrow>
          (\<forall>q\<in>set (p # ps). (\<exists>err. q = placeholder err) \<or> korean q = msg_api_key_missing)"
      using n2(6) n1_if by auto
    have c7: "keeps (ui s) (ui s')" using n1(4) n2(7) by (rule keeps_trans)
    have c8: "word_requests ?new \<le> 20 * nat (\<lceil>count\<rceil> - i)"
      using n1(5) n2(8) len by (simp add: MAX_ATTEMPTS_PER_WORD_def)
    have c9: "error (ui s') = error (ui s) \<or> error (ui s') = Some msg_partial_failure"
      using n2(9) n1_if by auto
    have c10: "list_all fetch_side_ok ?new \<longrightarrow>
          word_requests ?new = nat (\<lceil>count\<rceil> - i) \<and> error (ui s') = error (ui s)
          \<and> (\<forall>q\<in>set (p # ps). Translated (english q) (korean q) \<in> set ?new
                \<and> (\<not> truthy key \<longrightarrow> korean q = msg_api_key_missing))"
      using n2(10) n1(6) n1_if len by auto
    from c1 c2 c3 c4 c5 c6 c7 c8 c9 c10 show ?thesis
      by (intro exI [of _ ?new] exI [of _ "p # ps"]) (intro conjI)
  qed
qed

lemma fetchAndTranslateWords_events:
  assumes "fetchAndTranslateWords e key N (w, v) = (w', v')"
  shows "\<exists>new. trace w' = new @ trace w \<and> gate_respected new
     \<and> length (allWordsForSession v') = nat \<lceil>N\<rceil>
     \<and> (\<forall>p\<in>set (allWordsForSession v').
           (\<exists>err. p = placeholder err) \<or> Translated (english p) (korean p) \<in> set new)
     \<and> (\<not> truthy key \<longrightarrow>
          (\<forall>p\<in>set (allWordsForSession v').
             (\<exists>err. p = placeholder err) \<or> korean p = msg_api_key_missing))
     \<and> currentWordIndex v' = currentWordIndex v \<and> currentScreen v' = currentScreen v
     \<and> wordCount v' = wordCount v
     \<and> currentWordData v' = at_index (allWordsForSession v') 0
     \<and> word_requests new \<le> 20 * nat \<lceil>N\<rceil>
     \<and> (0 < N \<longrightarrow> error v' = None \<or> error v' = Some msg_partial_failure)
     \<and> (list_all fetch_side_ok new \<longrightarrow>
          word_requests new = nat \<lceil>N\<rceil> \<and> (0 < N \<longrightarrow> error v' = None)
          \<and> (\<forall>p\<in>set (allWordsForSession v'). Translated (english p) (korean p) \<in> set new
                \<and> (\<not> truthy key \<longrightarrow> korean p = msg_api_key_missing)))"
proof -
  let ?s0 = "\<lparr>net = w,
              ui = v\<lparr>isLoading := True, loadingMessage := msg_loading_words, error := None\<rparr>,
              fetchedWords = []\<rparr>"
  obtain s where s: "for_slots e key N 0 ?s0 = s" by simp
  from for_slots_events [OF s] obtain new ps where
    n: "trace (net s) = new @ trace (net ?s0)" "gate_respected new"
      "fetchedWords s = fetchedWords ?s0 @ ps" "length ps = nat (\<lceil>N\<rceil> - 0)"
      "\<forall>p\<in>set ps. (\<exists>err. p = placeholder err) \<or> Translated (english p) (korean p) \<in> set new"
      "\<not> truthy key \<longrightarrow>
        (\<forall>p\<in>set ps. (\<exists>err. p = placeholder err) \<or> korean p = msg_api_key_missing)"
      "keeps (ui ?s0) (ui s)"
      "word_requests new \<le> 20 * nat (\<lceil>N\<rceil> - 0)"
      "error (ui s) = error (ui ?s0) \<or> error (ui s) = Some msg_partial_failure"
      "list_all fetch_side_ok new \<longrightarrow>
        word_requests new = nat (\<lceil>N\<rceil> - 0) \<and> error (ui s) = error (ui ?s0)
        \<and> (\<forall>p\<in>set ps. Translated (english p) (korean p) \<in> set new
              \<and> (\<not> truthy key \<longrightarrow> korean p = msg_api_key_missing))"
    by blast
  from n(3) have fw: "fetchedWords s = ps" by simp
  from assms s have w': "w' = net s"
    by (auto simp: fetchAndTranslateWords_def Let_def split: if_splits)
  from assms s have v': "v' =
      (if length (fetchedWords s) > 0
       then (ui s)\<lparr>allWordsForSession := fetchedWords s,
                   currentWordData := at_index (fetchedWords s) 0,
                   isLoading := False, loadingMessage := []\<rparr>
       else (ui s)\<lparr>allWordsForSession := fetchedWords s,
                   error := Some msg_empty_list, currentWordData := None,
                   isLoading := False, loadingMessage := []\<rparr>)"
    by (auto simp: fetchAndTranslateWords_def Let_def split: if_splits)
  have all: "allWordsForSession v' = ps" using v' fw by simp
  have k: "currentWordIndex (ui s) = currentWordIndex v" "currentScreen (ui s) = currentScreen v"
    "wordCount (ui s) = wordCount v"
    using n(7) by (simp_all add: keeps_def)
  have c1: "trace w' = new @ trace w" using n(1) w' by simp
  have c3: "length (allWordsForSession v') = nat \<lceil>N\<rceil>" using all n(4) by simp
  have c6: "currentWordIndex v' = currentWordIndex v \<and> currentScreen v' = currentScreen v
     \<and> wordCount v' = wordCount v" using v' k by simp
  have c7: "currentWordData v' = at_index (allWordsForSession v') 0"
    using v' fw by (simp add: at_index_def)
  have pos: "0 < N \<Longrightarrow> length (fetchedWords s) > 0" using fw n(4) by simp
  have c9: "0 < N \<longrightarrow> error v' = None \<or> error v' = Some msg_partial_failure"
    using v' n(9) pos by auto
  have c10: "list_all fetch_side_ok new \<longrightarrow>
          word_requests new = nat \<lceil>N\<rceil> \<and> (0 < N \<longrightarrow> error v' = None)
          \<and> (\<forall>p\<in>set (allWordsForSession v'). Translated (english p) (korean p) \<in> set new
                \<and> (\<not> truthy key \<longrightarrow> korean p = msg_api_key_missing))"
    using v' n(10) pos all by auto
  from c1 n(2) c3 n(5,6,8) c6 c7 c9 c10 show ?thesis
    unfolding all by (intro exI [of _ new]) simp
qed

text \<open>The sample services, run symbolically.\<close>

lemma fetchWordFromAPI_source_down:
  "fetchWordFromAPI env_source_down 0 w
     = (Rejected (Error (ascii ''Could not fetch a random word.'')),
        w\<lparr>calls := calls w + 4,
          trace := [WordRequest (Resolved WordNotOk), Delay 1000,
                    WordRequest (Resolved WordNotOk), Delay 1000,
                    WordRequest (Resolved WordNotOk), Delay 1000,
                    WordRequest (Resolved WordNotOk)] @ trace w\<rparr>)"
  by (simp add: fetchWordFromAPI.simps fetch_try_def fetch_word_def env_source_down_def
      delay_def Let_def)

lemma fetchWordFromAPI_offline:
  "fetchWordFromAPI env_offline 0 w
     = (Rejected (Error (ascii ''NetworkError when attempting to fetch resource.'')),
        w\<lparr>calls := calls w + 4,
          trace :=
            [WordRequest (Rejected (Error (ascii ''NetworkError when attempting to fetch resource.''))),
             Delay 1000,
             WordRequest (Rejected (Error (ascii ''NetworkError when attempting to fetch resource.''))),
             Delay 1000,
             WordRequest (Rejected (Error (ascii ''NetworkError when attempting to fetch resource.''))),
             Delay 1000,
             WordRequest (Rejected (Error (ascii ''NetworkError when attempting to fetch resource.'')))]
            @ trace w\<rparr>)"
  by (simp add: fetchWordFromAPI.simps fetch_try_def fetch_word_def env_offline_def
      delay_def Let_def)

lemma load_try_offline:
  "load_try env_offline key count i s
     = (Rejected (Error (ascii ''NetworkError when attempting to fetch resource.'')),
        s\<lparr>net := snd (fetchWordFromAPI env_offline 0 (net s))\<rparr>)"
  by (simp add: load_try_def fetchWordFromAPI_offline)

lemma fetchWordFromAPI_translation_down:
  "fetchWordFromAPI env_translation_down 0 w
     = (Resolved (ascii ''cat''),
        w\<lparr>calls := calls w + 2,
          trace := [DictRequest (ascii ''cat'') (Resolved True),
                    WordRequest (Resolved (WordOk (Resolved (ascii ''cat''))))] @ trace w\<rparr>)"
  by (simp add: fetchWordFromAPI.simps fetch_try_def fetch_word_def fetch_dict_def
      env_translation_down_def Let_def)

lemma fetchWordFromAPI_dictionary_rejects:
  "fetchWordFromAPI env_dictionary_rejects 0 w
     = (Rejected (Error (ascii ''Could not find a valid word.'')),
        w\<lparr>calls := calls w + 8,
          trace := [DictRequest (ascii ''zzxq'') (Resolved False),
                    WordRequest (Resolved (WordOk (Resolved (ascii ''zzxq'')))), Delay 1000,
                    DictRequest (ascii ''zzxq'') (Resolved False),
                    WordRequest (Resolved (WordOk (Resolved (ascii ''zzxq'')))), Delay 1000,
                    DictRequest (ascii ''zzxq'') (Resolved False),
                    WordRequest (Resolved (WordOk (Resolved (ascii ''zzxq'')))), Delay 1000,
                    DictRequest (ascii ''zzxq'') (Resolved False),
                    WordRequest (Resolved (WordOk (Resolved (ascii ''zzxq''))))] @ trace w\<rparr>)"
  by (simp add: fetchWordFromAPI.simps fetch_try_def fetch_word_def fetch_dict_def
      env_dictionary_rejects_def delay_def Let_def)

lemma fetchAndTranslateWords_source_down:
  "allWordsForSession (snd (fetchAndTranslateWords env_source_down key 1 (w, v)))
     = [placeholder (Error (ascii ''Could not fetch a random word.''))]
   \<and> error (snd (fetchAndTranslateWords env_source_down key 1 (w, v)))
       = Some msg_partial_failure"
  by (simp add: fetchAndTranslateWords_def for_slots.simps while_attempts.simps load_try_def
      load_catch_def fetchWordFromAPI_source_down MAX_ATTEMPTS_PER_WORD_def Let_def)

lemma truthy_sample_key: "truthy sample_key"
  by (simp add: truthy_def sample_key_def ascii_def)

lemma translate_catch_key_not_valid:
  "translate_catch (Error (ascii ''Translation API error: ''
       @ ascii ''API key not valid. Please pass a valid API key.'')) = msg_api_key_invalid"
proof -
  have split: "ascii ''API key not valid. Please pass a valid API key.''
      = ascii ''API key not valid'' @ ascii ''. Please pass a valid API key.''"
    by (simp add: ascii_def)
  have "\<exists>ps ss. ascii ''Translation API error: ''
           @ ascii ''API key not valid. Please pass a valid API key.''
         = ps @ ascii ''API key not valid'' @ ss"
    unfolding split by blast
  then show ?thesis by (simp add: translate_catch_def js_includes_iff)
qed

lemma translateEnglishToKorean_translation_down:
  "translateEnglishToKorean env_translation_down sample_key (ascii ''cat'') w
     = (Resolved msg_api_key_invalid,
        w\<lparr>calls := calls w + 1,
          trace := [Translated (ascii ''cat'') msg_api_key_invalid,
                    TranslateRequest (ascii ''cat'') (Resolved (TranslateNotOk (Resolved
                      (ascii ''API key not valid. Please pass a valid API key.''))))]
                   @ trace w\<rparr>)"
  using truthy_sample_key translate_catch_key_not_valid
  by (simp add: translateEnglishToKorean_def translate_try_def fetch_translate_def
      env_translation_down_def Let_def)

lemma load_try_translation_down:
  "load_try env_translation_down sample_key count i s
     = (Resolved (),
        s\<lparr>net := (net s)\<lparr>calls := calls (net s) + 3,
                   trace := [Delay 1000,
                     Translated (ascii ''cat'') msg_api_key_invalid,
                     TranslateRequest (ascii ''cat'') (Resolved (TranslateNotOk (Resolved
                       (ascii ''API key not valid. Please pass a valid API key.'')))),
                     DictRequest (ascii ''cat'') (Resolved True),
                     WordRequest (Resolved (WordOk (Resolved (ascii ''cat''))))]
                    @ trace (net s)\<rparr>,
          ui := (ui s)\<lparr>loadingMessage :=
                   msg_translating env_translation_down (ascii ''cat'') (of_int (i + 1)) count\<rparr>,
          fetchedWords := fetchedWords s
            @ [\<lparr>english = ascii ''cat'', korean = msg_api_key_invalid\<rparr>]\<rparr>)"
  by (simp add: load_try_def fetchWordFromAPI_translation_down
      translateEnglishToKorean_translation_down Let_def delay_def)

section \<open>The claims\<close>

text \<open>
  Claim C1 as stated (for every requested count \<open>N \<ge> 1\<close> the stored list has length exactly
  \<open>N\<close>) fails. The page stores the number typed into the field unrounded and only refuses
  counts \<open>\<le> 0\<close>, and the loop test \<open>i < count\<close> holds for \<open>i = 0, 1, 2\<close> when the count is 2.5:
  three pairs are stored, by the loader called with 2.5 and by the page when 2.5 is typed
  and the start button is clicked.
\<close>

theorem fetchAndTranslateWords_length_counterexample:
  "(1::rat) \<le> 5 / 2
   \<and> allWordsForSession (snd (fetchAndTranslateWords env_translation_down sample_key (5 / 2)
        (initial_world, initial_state)))
     = [\<lparr>english = ascii ''cat'', korean = msg_api_key_invalid\<rparr>,
        \<lparr>english = ascii ''cat'', korean = msg_api_key_invalid\<rparr>,
        \<lparr>english = ascii ''cat'', korean = msg_api_key_invalid\<rparr>]
   \<and> rat_of_nat (length (allWordsForSession (snd (fetchAndTranslateWords env_translation_down
        sample_key (5 / 2) (initial_world, initial_state))))) \<noteq> 5 / 2
   \<and> wordCount (handleWordCountChange (5 / 2) initial_state) = 5 / 2
   \<and> length (allWordsForSession (snd (handleStartClick env_translation_down sample_key
        (initial_world, handleWordCountChange (5 / 2) initial_state)))) = 3"
proof -
  have run: "allWordsForSession (snd (fetchAndTranslateWords env_translation_down sample_key
        (5 / 2) (w, v)))
     = [\<lparr>english = ascii ''cat'', korean = msg_api_key_invalid\<rparr>,
        \<lparr>english = ascii ''cat'', korean = msg_api_key_invalid\<rparr>,
        \<lparr>english = ascii ''cat'', korean = msg_api_key_invalid\<rparr>]" for w v
    by (simp add: fetchAndTranslateWords_def for_slots.simps while_attempts.simps
        load_try_translation_down MAX_ATTEMPTS_PER_WORD_def Let_def)
  have page: "snd (handleStartClick env_translation_down sample_key
        (initial_world, handleWordCountChange (5 / 2) initial_state))
      = (snd (fetchAndTranslateWords env_translation_down sample_key (5 / 2)
           (initial_world, (handleWordCountChange (5 / 2) initial_state)\<lparr>currentWordIndex := 0\<rparr>)))
          \<lparr>currentScreen := 2\<rparr>"
    using truthy_sample_key
    by (simp add: handleStartClick_def handleWordCountChange_def split: prod.splits)
  show ?thesis unfolding page by (simp add: run handleWordCountChange_def)
qed

text \<open>
  Claim C1, amended. For every requested count \<open>N \<ge> 1\<close>, \<open>fetchAndTranslateWords\<close> stores a
  word list of \<open>N\<close> rounded up to the next whole number of pairs, which is exactly \<open>N\<close> when
  \<open>N\<close> is whole. Every slot holds either the placeholder pair of some error or a pair
  whose word was handed to the translation client during this run and whose target is
  what the client returned. The loops are total functions, so the run always reaches the
  end of the list.
\<close>

theorem fetchAndTranslateWords_fills_every_slot:
  assumes "1 \<le> N"
  shows "length (allWordsForSession (snd (fetchAndTranslateWords e key N (w, v)))) = nat \<lceil>N\<rceil>
    \<and> (of_int \<lfloor>N\<rfloor> = N \<longrightarrow>
          rat_of_nat (length (allWordsForSession (snd (fetchAndTranslateWords e key N (w, v)))))
            = N)
    \<and> (\<forall>i<nat \<lceil>N\<rceil>.
          (\<exists>err. allWordsForSession (snd (fetchAndTranslateWords e key N (w, v))) ! i
                   = placeholder err)
          \<or> Translated
               (english (allWordsForSession (snd (fetchAndTranslateWords e key N (w, v))) ! i))
               (korean (allWordsForSession (snd (fetchAndTranslateWords e key N (w, v))) ! i))
             \<in> set (events_since w (fst (fetchAndTranslateWords e key N (w, v)))))"
proof -
  obtain w' v' where r: "fetchAndTranslateWords e key N (w, v) = (w', v')"
    by (cases "fetchAndTranslateWords e key N (w, v)")
  from fetchAndTranslateWords_events [OF r] obtain new where
    n: "trace w' = new @ trace w" "length (allWordsForSession v') = nat \<lceil>N\<rceil>"
      "\<forall>p\<in>set (allWordsForSession v').
         (\<exists>err. p = placeholder err) \<or> Translated (english p) (korean p) \<in> set new"
    by blast
  from n(1) have ev: "events_since w w' = new" by (rule events_since_append)
  have whole: "of_int \<lfloor>N\<rfloor> = N \<longrightarrow> rat_of_nat (length (allWordsForSession v')) = N"
  proof
    assume a: "of_int \<lfloor>N\<rfloor> = N"
    then have "\<lceil>N\<rceil> = \<lfloor>N\<rfloor>" by (metis ceiling_of_int)
    moreover from assms have "0 \<le> \<lfloor>N\<rfloor>" by simp
    ultimately have "rat_of_nat (nat \<lceil>N\<rceil>) = of_int \<lfloor>N\<rfloor>" by simp
    with a n(2) show "rat_of_nat (length (allWordsForSession v')) = N" by simp
  qed
  have "\<forall>i<nat \<lceil>N\<rceil>. (\<exists>err. allWordsForSession v' ! i = placeholder err)
          \<or> Translated (english (allWordsForSession v' ! i)) (korean (allWordsForSession v' ! i))
             \<in> set new"
    using n(2,3) by (metis nth_mem)
  with n(2) whole ev r show ?thesis by simp
qed

theorem fetchAndTranslateWords_fills_every_slot_witness:
  "(1::rat) \<le> 2
   \<and> length (allWordsForSession (snd (fetchAndTranslateWords env_source_down sample_key 2
        (initial_world, initial_state)))) = 2
   \<and> (1::rat) \<le> 5 / 2
   \<and> length (allWordsForSession (snd (fetchAndTranslateWords env_source_down sample_key (5 / 2)
        (initial_world, initial_state)))) = 3"
proof -
  have h: "(1::rat) \<le> 2" by simp
  have h': "(1::rat) \<le> 5 / 2" by simp
  have w: "rat_of_int \<lfloor>2::rat\<rfloor> = 2" by simp
  have c: "\<lceil>5 / 2 :: rat\<rceil> = 3" by (simp add: ceiling_eq_iff)
  from fetchAndTranslateWords_fills_every_slot
      [OF h, of env_source_down sample_key initial_world initial_state]
    fetchAndTranslateWords_fills_every_slot
      [OF h', of env_source_down sample_key initial_world initial_state] h h' w c
  show ?thesis by simp
qed

text \<open>
  Claim C2. The \<open>while\<close> loop of a slot makes at least one and at most
  \<open>MAX_ATTEMPTS_PER_WORD = 5\<close> attempts (so at most 20 requests to the word service) and
  appends exactly one pair. If all five attempts end in the \<open>catch\<close> block, the loop ends
  after exactly five attempts and 20 word requests in the state in which the fifth error
  \<open>err\<close> was caught, changed in three places only: the list has gained the placeholder
  pair (the error-word marker; the first 30 code units of the message of \<open>err\<close>, or the
  unknown-error text if it has none, between the loading-failed prefix and three dots),
  \<open>error\<close> holds the partial-failure message, and the closing delay has run. If an
  attempt gets through, the pair appended is one the translation client returned in this
  run and \<open>error\<close> is untouched. In both cases the \<open>for\<close> loop goes on with slot \<open>i + 1\<close>
  and fills every remaining slot.
\<close>

theorem slot_gets_at_most_five_attempts:
  "MAX_ATTEMPTS_PER_WORD = 5
   \<and> fst (while_attempts e key count i (False, 0, s))
   \<and> 1 \<le> fst (snd (while_attempts e key count i (False, 0, s)))
   \<and> fst (snd (while_attempts e key count i (False, 0, s))) \<le> 5
   \<and> word_requests (events_since (net s)
        (net (snd (snd (while_attempts e key count i (False, 0, s)))))) \<le> 20
   \<and> (\<exists>p. fetchedWords (snd (snd (while_attempts e key count i (False, 0, s))))
            = fetchedWords s @ [p])
   \<and> (\<forall>err s5. caught_after e key count i 5 s = Some (err, s5) \<longrightarrow>
         while_attempts e key count i (False, 0, s)
           = (True, 5,
              s5\<lparr>fetchedWords := fetchedWords s
                     @ [\<lparr>english = error_word,
                         korean = msg_loading_failed
                           @ (if message err \<noteq> [] then take 30 (message err)
                              else msg_unknown_error)
                           @ ascii ''...''\<rparr>],
                 ui := (ui s5)\<lparr>error := Some msg_partial_failure\<rparr>,
                 net := delay 1000 (net s5)\<rparr>)
         \<and> word_requests (events_since (net s)
              (net (snd (snd (while_attempts e key count i (False, 0, s)))))) = 20)
   \<and> (caught_after e key count i 5 s = None \<longrightarrow>
         error (ui (snd (snd (while_attempts e key count i (False, 0, s))))) = error (ui s)
         \<and> (\<exists>x k. fetchedWords (snd (snd (while_attempts e key count i (False, 0, s))))
                    = fetchedWords s @ [\<lparr>english = x, korean = k\<rparr>]
               \<and> Translated x k \<in> set (events_since (net s)
                    (net (snd (snd (while_attempts e key count i (False, 0, s))))))))
   \<and> (of_int i < count \<longrightarrow>
         for_slots e key count i s
           = for_slots e key count (i + 1) (snd (snd (while_attempts e key count i (False, 0, s))))
         \<and> length (fetchedWords (for_slots e key count i s))
             = length (fetchedWords s) + nat (\<lceil>count\<rceil> - i))"
proof -
  obtain f a s' where wa: "while_attempts e key count i (False, 0, s) = (f, a, s')"
    by (cases "while_attempts e key count i (False, 0, s)")
  have five: "MAX_ATTEMPTS_PER_WORD = 5" by (simp add: MAX_ATTEMPTS_PER_WORD_def)
  then have "0 < MAX_ATTEMPTS_PER_WORD" by simp
  from while_attempts_slot [OF wa this] obtain new p where
    n: "trace (net s') = new @ trace (net s)" "f" "0 < a" "a \<le> MAX_ATTEMPTS_PER_WORD"
      "fetchedWords s' = fetchedWords s @ [p]"
      "word_requests new \<le> 4 * (MAX_ATTEMPTS_PER_WORD - 0)"
    and n_case: "case caught_after e key count i (MAX_ATTEMPTS_PER_WORD - 0) s of
           Some (err, s5) \<Rightarrow>
             a = MAX_ATTEMPTS_PER_WORD
             \<and> s' = snd (load_catch err MAX_ATTEMPTS_PER_WORD False s5)
             \<and> fetchedWords s5 = fetchedWords s
             \<and> p = placeholder err
             \<and> error (ui s') = Some msg_partial_failure \<and> \<not> list_all fetch_side_ok new
             \<and> word_requests new = 4 * (MAX_ATTEMPTS_PER_WORD - 0)
         | None \<Rightarrow>
             Translated (english p) (korean p) \<in> set new \<and> error (ui s') = error (ui s)
             \<and> (\<not> truthy key \<longrightarrow> korean p = msg_api_key_missing)"
    by blast
  from n(1) have ev: "events_since (net s) (net s') = new" by (rule events_since_append)
  have fs: "fst (while_attempts e key count i (False, 0, s)) = f"
    "fst (snd (while_attempts e key count i (False, 0, s))) = a"
    "snd (snd (while_attempts e key count i (False, 0, s))) = s'"
    using wa by simp_all
  have c1: "1 \<le> a" "a \<le> 5" using n(3,4) five by simp_all
  have c2: "word_requests (events_since (net s) (net s')) \<le> 20"
    using n(6) ev five by simp
  have c3: "\<exists>p. fetchedWords s' = fetchedWords s @ [p]" using n(5) by blast
  have fail: "\<forall>err s5. caught_after e key count i 5 s = Some (err, s5) \<longrightarrow>
         while_attempts e key count i (False, 0, s)
           = (True, 5,
              s5\<lparr>fetchedWords := fetchedWords s
                     @ [\<lparr>english = error_word,
                         korean = msg_loading_failed
                           @ (if message err \<noteq> [] then take 30 (message err)
                              else msg_unknown_error)
                           @ ascii ''...''\<rparr>],
                 ui := (ui s5)\<lparr>error := Some msg_partial_failure\<rparr>,
                 net := delay 1000 (net s5)\<rparr>)
         \<and> word_requests (events_since (net s) (net s')) = 20"
  proof (intro allI impI)
    fix err s5
    assume ca: "caught_after e key count i 5 s = Some (err, s5)"
    with n_case five have a5: "a = 5"
      and st: "s' = snd (load_catch err 5 False s5)"
      and fw: "fetchedWords s5 = fetchedWords s"
      and wr: "word_requests new = 20"
      by simp_all
    from st fw have "s' = s5\<lparr>fetchedWords := fetchedWords s
                     @ [\<lparr>english = error_word,
                         korean = msg_loading_failed
                           @ (if message err \<noteq> [] then take 30 (message err)
                              else msg_unknown_error)
                           @ ascii ''...''\<rparr>],
                 ui := (ui s5)\<lparr>error := Some msg_partial_failure\<rparr>,
                 net := delay 1000 (net s5)\<rparr>"
      by (simp add: load_catch_def MAX_ATTEMPTS_PER_WORD_def placeholder_def substring0_def)
    with wa n(2) a5 wr ev
    show "while_attempts e key count i (False, 0, s)
           = (True, 5,
              s5\<lparr>fetchedWords := fetchedWords s
                     @ [\<lparr>english = error_word,
                         korean = msg_loading_failed
                           @ (if message err \<noteq> [] then take 30 (message err)
                              else msg_unknown_error)
                           @ ascii ''...''\<rparr>],
                 ui := (ui s5)\<lparr>error := Some msg_partial_failure\<rparr>,
                 net := delay 1000 (net s5)\<rparr>)
         \<and> word_requests (events_since (net s) (net s')) = 20"
      by simp
  qed
  have through: "caught_after e key count i 5 s = None \<longrightarrow>
         error (ui s') = error (ui s)
         \<and> (\<exists>x k. fetchedWords s' = fetchedWords s @ [\<lparr>english = x, korean = k\<rparr>]
               \<and> Translated x k \<in> set (events_since (net s) (net s')))"
  proof
    assume "caught_after e key count i 5 s = None"
    with n_case five have t: "Translated (english p) (korean p) \<in> set new"
      and er: "error (ui s') = error (ui s)" by simp_all
    have "fetchedWords s' = fetchedWords s @ [\<lparr>english = english p, korean = korean p\<rparr>]"
      using n(5) by simp
    with t er ev show "error (ui s') = error (ui s)
         \<and> (\<exists>x k. fetchedWords s' = fetchedWords s @ [\<lparr>english = x, korean = k\<rparr>]
               \<and> Translated x k \<in> set (events_since (net s) (net s')))"
      by blast
  qed
  have cont: "of_int i < count \<longrightarrow>
         for_slots e key count i s = for_slots e key count (i + 1) s'
         \<and> length (fetchedWords (for_slots e key count i s))
             = length (fetchedWords s) + nat (\<lceil>count\<rceil> - i)"
  proof
    assume lt: "of_int i < count"
    have step: "for_slots e key count i s = for_slots e key count (i + 1) s'"
      using lt wa by (simp add: for_slots.simps [of e key count i s])
    from for_slots_events [OF refl, of e key count i s] obtain ps where
      "fetchedWords (for_slots e key count i s) = fetchedWords s @ ps"
      "length ps = nat (\<lceil>count\<rceil> - i)"
      by blast
    then have "length (fetchedWords (for_slots e key count i s))
        = length (fetchedWords s) + nat (\<lceil>count\<rceil> - i)" by simp
    with step show "for_slots e key count i s = for_slots e key count (i + 1) s'
         \<and> length (fetchedWords (for_slots e key count i s))
             = length (fetchedWords s) + nat (\<lceil>count\<rceil> - i)" by simp
  qed
  show ?thesis
    unfolding fs using five n(2) c1 c2 c3 fail through cont by (intro conjI)
qed

theorem slot_gets_at_most_five_attempts_witness:
  "(\<exists>s5. caught_after env_offline sample_key 1 0 5
            \<lparr>net = initial_world, ui = initial_state, fetchedWords = []\<rparr>
          = Some (Error (ascii ''NetworkError when attempting to fetch resource.''), s5))
   \<and> fst (snd (while_attempts env_offline sample_key 1 0
        (False, 0, \<lparr>net = initial_world, ui = initial_state, fetchedWords = []\<rparr>))) = 5
   \<and> fetchedWords (snd (snd (while_attempts env_offline sample_key 1 0
        (False, 0, \<lparr>net = initial_world, ui = initial_state, fetchedWords = []\<rparr>))))
       = [\<lparr>english = error_word,
           korean = msg_loading_failed @ ascii ''NetworkError when attempting t''
                      @ ascii ''...''\<rparr>]
   \<and> error (ui (snd (snd (while_attempts env_offline sample_key 1 0
        (False, 0, \<lparr>net = initial_world, ui = initial_state, fetchedWords = []\<rparr>)))))
       = Some msg_partial_failure
   \<and> word_requests (events_since initial_world
        (net (snd (snd (while_attempts env_offline sample_key 1 0
          (False, 0, \<lparr>net = initial_world, ui = initial_state, fetchedWords = []\<rparr>)))))) = 20
   \<and> length (fetchedWords (for_slots env_offline sample_key 1 0
        \<lparr>net = initial_world, ui = initial_state, fetchedWords = []\<rparr>)) = 1"
proof -
  let ?s0 = "\<lparr>net = initial_world, ui = initial_state, fetchedWords = []\<rparr>"
  let ?err = "Error (ascii ''NetworkError when attempting to fetch resource.'')"
  have "\<exists>s5. caught_after env_offline sample_key 1 0 5 ?s0 = Some (?err, s5)"
    by (simp add: eval_nat_numeral load_try_offline)
  then obtain s5 where ca: "caught_after env_offline sample_key 1 0 5 ?s0 = Some (?err, s5)"
    by blast
  have lt: "rat_of_int 0 < 1" by simp
  have cut: "take 30 (message ?err) = ascii ''NetworkError when attempting t''"
    "message ?err \<noteq> []"
    by (simp_all add: ascii_def)
  note slot = slot_gets_at_most_five_attempts [of env_offline sample_key 1 0 ?s0]
  from slot ca have run: "while_attempts env_offline sample_key 1 0 (False, 0, ?s0)
      = (True, 5,
         s5\<lparr>fetchedWords := fetchedWords ?s0
                @ [\<lparr>english = error_word,
                    korean = msg_loading_failed
                      @ (if message ?err \<noteq> [] then take 30 (message ?err)
                         else msg_unknown_error)
                      @ ascii ''...''\<rparr>],
            ui := (ui s5)\<lparr>error := Some msg_partial_failure\<rparr>,
            net := delay 1000 (net s5)\<rparr>)"
    and wr: "word_requests (events_since (net ?s0)
        (net (snd (snd (while_attempts env_offline sample_key 1 0 (False, 0, ?s0)))))) = 20"
    by blast+
  from slot lt have len: "length (fetchedWords (for_slots env_offline sample_key 1 0 ?s0))
      = length (fetchedWords ?s0) + nat (\<lceil>1::rat\<rceil> - 0)"
    by blast
  from ca have part1: "\<exists>s5. caught_after env_offline sample_key 1 0 5 ?s0 = Some (?err, s5)"
    by blast
  from part1 run wr len cut show ?thesis by simp
qed

text \<open>
  Claim C3. \<open>fetchWordFromAPI\<close> is a total function (its recursion on \<open>retryCount\<close>
  terminates), and one top-level call sends at least 1 and at most 4 requests to the word
  service, whatever mixture of word-service and dictionary failures occurs: both kinds
  of failure move to \<open>retryCount + 1\<close>. The dictionary is asked at most once per word
  request, a call that fails has used all 4 word requests, and a call entered with
  \<open>retryCount = r \<le> 3\<close> sends at most \<open>4 - r\<close>.
\<close>

theorem fetchWordFromAPI_at_most_four_attempts:
  "1 \<le> word_requests (events_since w (snd (fetchWordFromAPI e 0 w)))
   \<and> word_requests (events_since w (snd (fetchWordFromAPI e 0 w))) \<le> 4
   \<and> dict_requests (events_since w (snd (fetchWordFromAPI e 0 w)))
       \<le> word_requests (events_since w (snd (fetchWordFromAPI e 0 w)))
   \<and> calls (snd (fetchWordFromAPI e 0 w))
       = calls w + word_requests (events_since w (snd (fetchWordFromAPI e 0 w)))
         + dict_requests (events_since w (snd (fetchWordFromAPI e 0 w)))
   \<and> (\<forall>err. fst (fetchWordFromAPI e 0 w) = Rejected err \<longrightarrow>
         word_requests (events_since w (snd (fetchWordFromAPI e 0 w))) = 4)
   \<and> (r \<le> 3 \<longrightarrow> word_requests (events_since w (snd (fetchWordFromAPI e r w))) \<le> 4 - r)"
proof -
  have gen: "1 \<le> word_requests (events_since w (snd (fetchWordFromAPI e r w)))
     \<and> (r \<le> 3 \<longrightarrow> word_requests (events_since w (snd (fetchWordFromAPI e r w))) \<le> 4 - r)
     \<and> dict_requests (events_since w (snd (fetchWordFromAPI e r w)))
         \<le> word_requests (events_since w (snd (fetchWordFromAPI e r w)))
     \<and> calls (snd (fetchWordFromAPI e r w))
         = calls w + word_requests (events_since w (snd (fetchWordFromAPI e r w)))
           + dict_requests (events_since w (snd (fetchWordFromAPI e r w)))
     \<and> (\<forall>err. fst (fetchWordFromAPI e r w) = Rejected err \<longrightarrow> r \<le> 3 \<longrightarrow>
           word_requests (events_since w (snd (fetchWordFromAPI e r w))) = 4 - r)" for r
  proof -
    obtain res w' where f: "fetchWordFromAPI e r w = (res, w')"
      by (cases "fetchWordFromAPI e r w")
    from fetchWordFromAPI_events [OF f] obtain new where
      n: "trace w' = new @ trace w" "1 \<le> word_requests new"
        "r \<le> 3 \<longrightarrow> word_requests new \<le> 4 - r" "dict_requests new \<le> word_requests new"
        "calls w' = calls w + word_requests new + dict_requests new"
      and n_res: "case res of
          Resolved x \<Rightarrow> (\<exists>rest. new = DictRequest x (Resolved True) # rest)
        | Rejected err \<Rightarrow> (r \<le> 3 \<longrightarrow> word_requests new = 4 - r)
            \<and> \<not> list_all fetch_side_ok new"
      by blast
    from n(1) have ev: "events_since w w' = new" by (rule events_since_append)
    from n_res have "\<forall>err. res = Rejected err \<longrightarrow> r \<le> 3 \<longrightarrow> word_requests new = 4 - r"
      by (auto split: outcome.splits)
    with n ev f show ?thesis by simp
  qed
  from gen [of 0] gen [of r] show ?thesis by simp
qed

theorem fetchWordFromAPI_at_most_four_attempts_witness:
  "fst (fetchWordFromAPI env_dictionary_rejects 0 initial_world)
     = Rejected (Error (ascii ''Could not find a valid word.''))
   \<and> word_requests (events_since initial_world
        (snd (fetchWordFromAPI env_dictionary_rejects 0 initial_world))) = 4
   \<and> dict_requests (events_since initial_world
        (snd (fetchWordFromAPI env_dictionary_rejects 0 initial_world))) = 4
   \<and> calls (snd (fetchWordFromAPI env_dictionary_rejects 0 initial_world)) = 8"
proof -
  have r: "fst (fetchWordFromAPI env_dictionary_rejects 0 initial_world)
     = Rejected (Error (ascii ''Could not find a valid word.''))"
    by (simp add: fetchWordFromAPI_dictionary_rejects)
  have d: "dict_requests (events_since initial_world
        (snd (fetchWordFromAPI env_dictionary_rejects 0 initial_world))) = 4"
    by (simp add: fetchWordFromAPI_dictionary_rejects events_since_def initial_world_def)
  have c: "calls initial_world = 0" by (simp add: initial_world_def)
  from fetchWordFromAPI_at_most_four_attempts [of initial_world env_dictionary_rejects 0] r d c
  show ?thesis by simp
qed

text \<open>
  Claim C4. \<open>translateEnglishToKorean\<close> never throws: for every word, every credential
  and every behaviour of the network it resolves with a string. Without a credential it
  resolves with the fixed missing-key text and sends no request: the request counter is
  unchanged and the run adds no translation request to the trace.
\<close>

theorem translateEnglishToKorean_never_throws:
  "(\<exists>k w'. translateEnglishToKorean e key x w = (Resolved k, w'))
   \<and> (\<not> truthy key \<longrightarrow>
        translateEnglishToKorean e key x w
          = (Resolved msg_api_key_missing,
             w\<lparr>trace := Translated x msg_api_key_missing # trace w\<rparr>)
        \<and> calls (snd (translateEnglishToKorean e key x w)) = calls w
        \<and> \<not> list_ex is_translate_request
              (events_since w (snd (translateEnglishToKorean e key x w))))"
proof -
  have "\<not> truthy key \<Longrightarrow> translateEnglishToKorean e key x w
          = (Resolved msg_api_key_missing,
             w\<lparr>trace := Translated x msg_api_key_missing # trace w\<rparr>)"
    by (simp add: translateEnglishToKorean_def)
  then show ?thesis
    using translate_resolves [of e key x w] by (auto simp: events_since_def)
qed

theorem translateEnglishToKorean_never_throws_witness:
  "\<not> truthy None
   \<and> translateEnglishToKorean env_translation_down None (ascii ''cat'') initial_world
       = (Resolved msg_api_key_missing,
          initial_world\<lparr>trace := [Translated (ascii ''cat'') msg_api_key_missing]\<rparr>)
   \<and> calls (snd (translateEnglishToKorean env_translation_down None (ascii ''cat'')
        initial_world)) = 0"
proof -
  have h: "\<not> truthy None" by (simp add: truthy_def)
  have t: "trace initial_world = []" "calls initial_world = 0"
    by (simp_all add: initial_world_def)
  from translateEnglishToKorean_never_throws
    [of env_translation_down None "ascii ''cat''" initial_world] h t
  show ?thesis by simp
qed

text \<open>
  Claim C5. Whenever \<open>fetchWordFromAPI\<close> resolves with a word, the newest event is the
  dictionary accepting that very word; and in a run of \<open>fetchAndTranslateWords\<close> every
  translation request and every call of the translation client is for the word the
  dictionary accepted immediately before.
\<close>

theorem dictionary_gate_before_translation:
  "(\<forall>x. fst (fetchWordFromAPI e r w) = Resolved x \<longrightarrow>
        (\<exists>rest. trace (snd (fetchWordFromAPI e r w)) = DictRequest x (Resolved True) # rest))
   \<and> gate_respected (events_since w (fst (fetchAndTranslateWords e key N (w, v))))"
proof -
  obtain res w1 where f: "fetchWordFromAPI e r w = (res, w1)"
    by (cases "fetchWordFromAPI e r w")
  from fetchWordFromAPI_events [OF f] obtain n1 where
    n1: "trace w1 = n1 @ trace w"
    and n1_res: "case res of
        Resolved x \<Rightarrow> (\<exists>rest. n1 = DictRequest x (Resolved True) # rest)
      | Rejected err \<Rightarrow> (r \<le> 3 \<longrightarrow> word_requests n1 = 4 - r)
          \<and> \<not> list_all fetch_side_ok n1"
    by blast
  have a: "\<forall>x. res = Resolved x \<longrightarrow> (\<exists>rest. trace w1 = DictRequest x (Resolved True) # rest)"
    using n1 n1_res by (auto split: outcome.splits)
  obtain w' v' where l: "fetchAndTranslateWords e key N (w, v) = (w', v')"
    by (cases "fetchAndTranslateWords e key N (w, v)")
  from fetchAndTranslateWords_events [OF l] obtain new where
    "trace w' = new @ trace w" "gate_respected new"
    by blast
  then have "gate_respected (events_since w w')" by (simp add: events_since_append)
  with a f l show ?thesis by simp
qed

theorem dictionary_gate_before_translation_witness:
  "fst (fetchWordFromAPI env_translation_down 0 initial_world) = Resolved (ascii ''cat'')
   \<and> (\<exists>rest. trace (snd (fetchWordFromAPI env_translation_down 0 initial_world))
         = DictRequest (ascii ''cat'') (Resolved True) # rest)"
proof -
  have h: "fst (fetchWordFromAPI env_translation_down 0 initial_world) = Resolved (ascii ''cat'')"
    by (simp add: fetchWordFromAPI_translation_down)
  from dictionary_gate_before_translation
    [of env_translation_down 0 initial_world sample_key 1 initial_state] h
  show ?thesis by blast
qed

text \<open>
  Claim C6. With the cursor at \<open>i\<close>, \<open>1 \<le> i \<le> length - 1\<close>, \<open>handlePreviousWord\<close> moves it to
  \<open>i - 1\<close>. At 0 it changes nothing but \<open>error\<close>, which reports that there is no previous
  word. With the cursor at \<open>length - 1\<close>, \<open>handleNextWord\<close> switches to screen 3 and leaves
  the cursor where it is.
\<close>

theorem cursor_navigation:
  "(1 \<le> currentWordIndex v \<and> currentWordIndex v \<le> int (length (allWordsForSession v)) - 1 \<longrightarrow>
      currentWordIndex (handlePreviousWord v) = currentWordIndex v - 1)
   \<and> (currentWordIndex v = 0 \<longrightarrow>
        handlePreviousWord v = v\<lparr>error := Some msg_no_previous\<rparr>
        \<and> currentWordIndex (handlePreviousWord v) = 0
        \<and> error (handlePreviousWord v) = Some msg_no_previous)
   \<and> (currentWordIndex v = int (length (allWordsForSession v)) - 1 \<longrightarrow>
        handleNextWord v = v\<lparr>currentScreen := 3\<rparr>
        \<and> currentScreen (handleNextWord v) = 3
        \<and> currentWordIndex (handleNextWord v) = currentWordIndex v)"
  by (simp add: handlePreviousWord_def handleNextWord_def Let_def)

theorem cursor_navigation_witness:
  "currentWordIndex two_words = 0
   \<and> currentWordIndex (handlePreviousWord two_words) = 0
   \<and> error (handlePreviousWord two_words) = Some msg_no_previous
   \<and> 1 \<le> currentWordIndex (two_words\<lparr>currentWordIndex := 1\<rparr>)
   \<and> currentWordIndex (two_words\<lparr>currentWordIndex := 1\<rparr>)
       = int (length (allWordsForSession (two_words\<lparr>currentWordIndex := 1\<rparr>))) - 1
   \<and> currentWordIndex (handlePreviousWord (two_words\<lparr>currentWordIndex := 1\<rparr>)) = 0
   \<and> currentScreen (handleNextWord (two_words\<lparr>currentWordIndex := 1\<rparr>)) = 3
   \<and> currentWordIndex (handleNextWord (two_words\<lparr>currentWordIndex := 1\<rparr>)) = 1"
proof -
  have a: "currentWordIndex two_words = 0" by (simp add: two_words_def)
  have b: "currentWordIndex (two_words\<lparr>currentWordIndex := 1\<rparr>) = 1" by simp
  have c: "int (length (allWordsForSession (two_words\<lparr>currentWordIndex := 1\<rparr>))) - 1 = 1"
    by (simp add: two_words_def)
  from cursor_navigation [of two_words]
    cursor_navigation [of "two_words\<lparr>currentWordIndex := 1\<rparr>"] a b c
  show ?thesis by simp
qed

text \<open>
  Claim C7. The browsing invariant (the cursor is inside the list and the word shown is
  the list element at the cursor) is preserved by \<open>handleNextWord\<close> and by
  \<open>handlePreviousWord\<close>, and it holds, with the cursor at 0, when \<open>handleStartClick\<close> has
  loaded a session.
\<close>

theorem navigation_preserves_browsing_inv:
  "(browsing_inv v \<longrightarrow> browsing_inv (handleNextWord v) \<and> browsing_inv (handlePreviousWord v))
   \<and> (0 < wordCount v \<and> truthy key \<longrightarrow>
        browsing_inv (snd (handleStartClick e key (w, v)))
        \<and> currentWordIndex (snd (handleStartClick e key (w, v))) = 0
        \<and> currentScreen (snd (handleStartClick e key (w, v))) = 2)"
proof -
  have nav: "browsing_inv v \<longrightarrow> browsing_inv (handleNextWord v) \<and> browsing_inv (handlePreviousWord v)"
    by (auto simp: browsing_inv_def handleNextWord_def handlePreviousWord_def Let_def at_index_def)
  have start: "0 < wordCount v \<and> truthy key \<longrightarrow>
        browsing_inv (snd (handleStartClick e key (w, v)))
        \<and> currentWordIndex (snd (handleStartClick e key (w, v))) = 0
        \<and> currentScreen (snd (handleStartClick e key (w, v))) = 2"
  proof
    assume a: "0 < wordCount v \<and> truthy key"
    obtain w' v' where
      l: "fetchAndTranslateWords e key (wordCount v) (w, v\<lparr>currentWordIndex := 0\<rparr>) = (w', v')"
      by (cases "fetchAndTranslateWords e key (wordCount v) (w, v\<lparr>currentWordIndex := 0\<rparr>)")
    from fetchAndTranslateWords_events [OF l] have
      n: "length (allWordsForSession v') = nat \<lceil>wordCount v\<rceil>"
        "currentWordIndex v' = currentWordIndex (v\<lparr>currentWordIndex := 0\<rparr>)"
        "currentWordData v' = at_index (allWordsForSession v') 0"
      by blast+
    from a l have r: "snd (handleStartClick e key (w, v)) = v'\<lparr>currentScreen := 2\<rparr>"
      by (simp add: handleStartClick_def)
    from n a have "browsing_inv (v'\<lparr>currentScreen := 2\<rparr>)"
      by (simp add: browsing_inv_def at_index_def)
    with r n(2) show "browsing_inv (snd (handleStartClick e key (w, v)))
        \<and> currentWordIndex (snd (handleStartClick e key (w, v))) = 0
        \<and> currentScreen (snd (handleStartClick e key (w, v))) = 2"
      by simp
  qed
  from nav start show ?thesis by (rule conjI)
qed

theorem navigation_preserves_browsing_inv_witness:
  "browsing_inv two_words
   \<and> browsing_inv (handleNextWord two_words)
   \<and> browsing_inv (handlePreviousWord two_words)
   \<and> 0 < wordCount two_words \<and> truthy sample_key
   \<and> browsing_inv (snd (handleStartClick env_source_down sample_key (initial_world, two_words)))"
proof -
  have a: "browsing_inv two_words" by (simp add: browsing_inv_def two_words_def)
  have b: "0 < wordCount two_words" by (simp add: two_words_def)
  have c: "truthy sample_key" by (rule truthy_sample_key)
  from navigation_preserves_browsing_inv
    [of two_words sample_key env_source_down initial_world] a b c
  show ?thesis by simp
qed

text \<open>
  Claim C8 as stated (no credential, one word requested: the list holds exactly one pair
  whose target is the missing-key text) fails. \<open>handleStartClick\<close> refuses to start
  without a credential, so the list stays empty; and \<open>fetchAndTranslateWords\<close> run without
  a credential against a word service that is down stores the placeholder pair.
\<close>

theorem missing_key_single_word_counterexample:
  "allWordsForSession (snd (handleStartClick env_translation_down None
       (initial_world, initial_state\<lparr>wordCount := 1\<rparr>))) = []
   \<and> map korean (allWordsForSession (snd (fetchAndTranslateWords env_source_down None 1
       (initial_world, initial_state)))) \<noteq> [msg_api_key_missing]"
proof -
  have a: "allWordsForSession (snd (handleStartClick env_translation_down None
       (initial_world, initial_state\<lparr>wordCount := 1\<rparr>))) = []"
    by (simp add: handleStartClick_def truthy_def initial_state_def)
  have b: "allWordsForSession (snd (fetchAndTranslateWords env_source_down None 1
       (initial_world, initial_state)))
      = [placeholder (Error (ascii ''Could not fetch a random word.''))]"
    by (simp add: fetchAndTranslateWords_source_down)
  have c: "korean (placeholder err) \<noteq> msg_api_key_missing" for err
    by (simp add: placeholder_def msg_loading_failed_def msg_api_key_missing_def)
  from a b c show ?thesis by simp
qed

text \<open>
  Claim C8, amended. Without a credential, \<open>handleStartClick\<close> with a positive count only
  raises the key-not-set alert and changes no cell. \<open>fetchAndTranslateWords\<close> with count 1
  stores exactly one pair, which is a placeholder pair or has the missing-key text as its
  target; it has the missing-key text whenever no request of the fetch side failed.
\<close>

theorem missing_key_single_word:
  "\<not> truthy key \<longrightarrow>
     (0 < wordCount v \<longrightarrow> handleStartClick e key (w, v) = (alert msg_key_not_set w, v))
     \<and> (\<exists>p. allWordsForSession (snd (fetchAndTranslateWords e key 1 (w, v))) = [p]
            \<and> ((\<exists>err. p = placeholder err) \<or> korean p = msg_api_key_missing))
     \<and> (list_all fetch_side_ok (events_since w (fst (fetchAndTranslateWords e key 1 (w, v)))) \<longrightarrow>
          map korean (allWordsForSession (snd (fetchAndTranslateWords e key 1 (w, v))))
            = [msg_api_key_missing])"
proof
  assume nk: "\<not> truthy key"
  obtain w' v' where l: "fetchAndTranslateWords e key 1 (w, v) = (w', v')"
    by (cases "fetchAndTranslateWords e key 1 (w, v)")
  from fetchAndTranslateWords_events [OF l] obtain new where
    n: "trace w' = new @ trace w" "length (allWordsForSession v') = nat \<lceil>1::rat\<rceil>"
      "\<not> truthy key \<longrightarrow>
          (\<forall>p\<in>set (allWordsForSession v').
             (\<exists>err. p = placeholder err) \<or> korean p = msg_api_key_missing)"
      "list_all fetch_side_ok new \<longrightarrow>
          word_requests new = nat \<lceil>1::rat\<rceil> \<and> (0 < (1::rat) \<longrightarrow> error v' = None)
          \<and> (\<forall>p\<in>set (allWordsForSession v'). Translated (english p) (korean p) \<in> set new
                \<and> (\<not> truthy key \<longrightarrow> korean p = msg_api_key_missing))"
    by blast
  from n(2) obtain p where p: "allWordsForSession v' = [p]"
    by (cases "allWordsForSession v'") auto
  from n(1) have ev: "events_since w w' = new" by (rule events_since_append)
  have a: "0 < wordCount v \<longrightarrow> handleStartClick e key (w, v) = (alert msg_key_not_set w, v)"
    using nk by (simp add: handleStartClick_def)
  have b: "\<exists>p. allWordsForSession v' = [p]
            \<and> ((\<exists>err. p = placeholder err) \<or> korean p = msg_api_key_missing)"
    using n(3) nk p by simp
  have c: "list_all fetch_side_ok new \<longrightarrow> map korean (allWordsForSession v') = [msg_api_key_missing]"
    using n(4) nk p by simp
  from a b c l ev
  show "(0 < wordCount v \<longrightarrow> handleStartClick e key (w, v) = (alert msg_key_not_set w, v))
     \<and> (\<exists>p. allWordsForSession (snd (fetchAndTranslateWords e key 1 (w, v))) = [p]
            \<and> ((\<exists>err. p = placeholder err) \<or> korean p = msg_api_key_missing))
     \<and> (list_all fetch_side_ok (events_since w (fst (fetchAndTranslateWords e key 1 (w, v)))) \<longrightarrow>
          map korean (allWordsForSession (snd (fetchAndTranslateWords e key 1 (w, v))))
            = [msg_api_key_missing])"
    by simp
qed

theorem missing_key_single_word_witness:
  "\<not> truthy None \<and> 0 < wordCount (initial_state\<lparr>wordCount := 1\<rparr>)
   \<and> handleStartClick env_translation_down None (initial_world, initial_state\<lparr>wordCount := 1\<rparr>)
       = (alert msg_key_not_set initial_world, initial_state\<lparr>wordCount := 1\<rparr>)
   \<and> list_all fetch_side_ok (events_since initial_world
        (fst (fetchAndTranslateWords env_translation_down None 1 (initial_world, initial_state))))
   \<and> map korean (allWordsForSession
        (snd (fetchAndTranslateWords env_translation_down None 1 (initial_world, initial_state))))
       = [msg_api_key_missing]"
proof -
  have h: "\<not> truthy None" by (simp add: truthy_def)
  have c: "0 < wordCount (initial_state\<lparr>wordCount := 1\<rparr>)" by simp
  have ok: "list_all fetch_side_ok (events_since initial_world
        (fst (fetchAndTranslateWords env_translation_down None 1 (initial_world, initial_state))))"
    by (simp add: fetchAndTranslateWords_def for_slots.simps while_attempts.simps load_try_def
        fetchWordFromAPI_translation_down translateEnglishToKorean_def truthy_def MAX_ATTEMPTS_PER_WORD_def Let_def delay_def
        events_since_def initial_world_def)
  from missing_key_single_word
    [of None "initial_state\<lparr>wordCount := 1\<rparr>" env_translation_down initial_world] h c
    missing_key_single_word [of None initial_state env_translation_down initial_world] ok
  show ?thesis by simp
qed

text \<open>
  Claim C9. When the \<open>try\<close> block of the translation client fails with an error, the
  client resolves with the invalid-key text if the error message contains
  "API key not valid", else with the quota text if it contains "daily limit exceeded",
  else with the translation-failed prefix followed by the raw message. (Containment is
  stated as such, not through \<open>js_includes\<close>.) The error of a non-success response has
  the message "Translation API error: " followed by the detail of the response.
\<close>

theorem translation_error_classification:
  "(truthy key \<and> translate_try e (the key) x w = (Rejected err, w1) \<longrightarrow>
      fst (translateEnglishToKorean e key x w)
        = Resolved
            (if \<exists>ps ss. message err = ps @ ascii ''API key not valid'' @ ss
             then msg_api_key_invalid
             else if \<exists>ps ss. message err = ps @ ascii ''daily limit exceeded'' @ ss
             then msg_daily_limit
             else msg_translation_failed @ message err))
   \<and> (translate_api e (calls w) k x = Resolved (TranslateNotOk (Resolved d)) \<longrightarrow>
        fst (translate_try e k x w) = Rejected (Error (ascii ''Translation API error: '' @ d)))"
  by (simp add: translateEnglishToKorean_def translate_catch_def js_includes_iff
      translate_try_def fetch_translate_def Let_def)

theorem translation_error_classification_witness:
  "truthy sample_key
   \<and> fst (translate_try env_translation_down (the sample_key) (ascii ''cat'') initial_world)
       = Rejected (Error (ascii ''Translation API error: ''
           @ ascii ''API key not valid. Please pass a valid API key.''))
   \<and> fst (translateEnglishToKorean env_translation_down sample_key (ascii ''cat'') initial_world)
       = Resolved msg_api_key_invalid"
proof -
  note classification = translation_error_classification
    [of sample_key env_translation_down "ascii ''cat''" initial_world
        "Error (ascii ''Translation API error: ''
           @ ascii ''API key not valid. Please pass a valid API key.'')"
        "snd (translate_try env_translation_down (the sample_key) (ascii ''cat'') initial_world)"
        "the sample_key" "ascii ''API key not valid. Please pass a valid API key.''"]
  have h: "truthy sample_key" by (rule truthy_sample_key)
  have a: "translate_api env_translation_down (calls initial_world) (the sample_key)
        (ascii ''cat'')
      = Resolved (TranslateNotOk (Resolved
          (ascii ''API key not valid. Please pass a valid API key.'')))"
    by (simp add: env_translation_down_def)
  from classification a
  have t: "fst (translate_try env_translation_down (the sample_key) (ascii ''cat'')
        initial_world)
      = Rejected (Error (ascii ''Translation API error: ''
           @ ascii ''API key not valid. Please pass a valid API key.''))"
    by blast
  then have t': "translate_try env_translation_down (the sample_key) (ascii ''cat'')
        initial_world
      = (Rejected (Error (ascii ''Translation API error: ''
           @ ascii ''API key not valid. Please pass a valid API key.'')),
         snd (translate_try env_translation_down (the sample_key) (ascii ''cat'')
           initial_world))"
    by (simp add: prod_eq_iff)
  have split: "ascii ''API key not valid. Please pass a valid API key.''
      = ascii ''API key not valid'' @ ascii ''. Please pass a valid API key.''"
    by (simp add: ascii_def)
  have ex: "\<exists>ps ss. message (Error (ascii ''Translation API error: ''
           @ ascii ''API key not valid. Please pass a valid API key.''))
         = ps @ ascii ''API key not valid'' @ ss"
    unfolding split js_error.sel by blast
  from classification h t' ex
  have "fst (translateEnglishToKorean env_translation_down sample_key (ascii ''cat'')
        initial_world) = Resolved msg_api_key_invalid"
    by simp
  with h t show ?thesis by simp
qed

text \<open>
  Claim C10. A failed translation costs no attempt: whenever \<open>fetchWordFromAPI\<close> resolves
  with a word, the same attempt appends the pair of that word and of whatever the
  translation client returned. So a run (\<open>N \<ge> 1\<close>) in which no request of the fetch side
  failed sends exactly one word request per slot, records no failure, and every stored
  pair comes from a call of the translation client; a recorded partial failure implies a
  failed word or dictionary request.
\<close>

theorem translation_failure_costs_no_attempt:
  "(\<forall>x w1. fetchWordFromAPI e 0 (net s) = (Resolved x, w1) \<longrightarrow>
      (\<exists>k s'. load_try e key count i s = (Resolved (), s')
         \<and> fetchedWords s' = fetchedWords s @ [\<lparr>english = x, korean = k\<rparr>]
         \<and> fst (translateEnglishToKorean e key x w1) = Resolved k))
   \<and> (1 \<le> N \<and> list_all fetch_side_ok
          (events_since w (fst (fetchAndTranslateWords e key N (w, v)))) \<longrightarrow>
        word_requests (events_since w (fst (fetchAndTranslateWords e key N (w, v)))) = nat \<lceil>N\<rceil>
        \<and> error (snd (fetchAndTranslateWords e key N (w, v))) = None
        \<and> (\<forall>p\<in>set (allWordsForSession (snd (fetchAndTranslateWords e key N (w, v)))).
              Translated (english p) (korean p)
                \<in> set (events_since w (fst (fetchAndTranslateWords e key N (w, v))))))
   \<and> (1 \<le> N \<and> error (snd (fetchAndTranslateWords e key N (w, v))) = Some msg_partial_failure \<longrightarrow>
        \<not> list_all fetch_side_ok
            (events_since w (fst (fetchAndTranslateWords e key N (w, v)))))"
proof -
  have a: "\<forall>x w1. fetchWordFromAPI e 0 (net s) = (Resolved x, w1) \<longrightarrow>
      (\<exists>k s'. load_try e key count i s = (Resolved (), s')
         \<and> fetchedWords s' = fetchedWords s @ [\<lparr>english = x, korean = k\<rparr>]
         \<and> fst (translateEnglishToKorean e key x w1) = Resolved k)"
  proof (intro allI impI)
    fix x w1
    assume f: "fetchWordFromAPI e 0 (net s) = (Resolved x, w1)"
    from translate_resolves [of e key x w1] obtain k w2 where
      t: "translateEnglishToKorean e key x w1 = (Resolved k, w2)" by blast
    from f t show "\<exists>k s'. load_try e key count i s = (Resolved (), s')
         \<and> fetchedWords s' = fetchedWords s @ [\<lparr>english = x, korean = k\<rparr>]
         \<and> fst (translateEnglishToKorean e key x w1) = Resolved k"
      by (simp add: load_try_def Let_def)
  qed
  obtain w' v' where l: "fetchAndTranslateWords e key N (w, v) = (w', v')"
    by (cases "fetchAndTranslateWords e key N (w, v)")
  from fetchAndTranslateWords_events [OF l] obtain new where
    n: "trace w' = new @ trace w"
      "list_all fetch_side_ok new \<longrightarrow>
          word_requests new = nat \<lceil>N\<rceil> \<and> (0 < N \<longrightarrow> error v' = None)
          \<and> (\<forall>p\<in>set (allWordsForSession v'). Translated (english p) (korean p) \<in> set new
                \<and> (\<not> truthy key \<longrightarrow> korean p = msg_api_key_missing))"
    by blast
  from n(1) have ev: "events_since w w' = new" by (rule events_since_append)
  have b: "1 \<le> N \<and> list_all fetch_side_ok new \<longrightarrow>
        word_requests new = nat \<lceil>N\<rceil> \<and> error v' = None
        \<and> (\<forall>p\<in>set (allWordsForSession v'). Translated (english p) (korean p) \<in> set new)"
    using n(2) by auto
  have c: "1 \<le> N \<and> error v' = Some msg_partial_failure \<longrightarrow> \<not> list_all fetch_side_ok new"
    using n(2) by auto
  from a b c show ?thesis unfolding l ev fst_conv snd_conv by (intro conjI)
qed

theorem translation_failure_costs_no_attempt_witness:
  "(\<exists>s'. load_try env_translation_down sample_key 1 0
            \<lparr>net = initial_world, ui = initial_state, fetchedWords = []\<rparr> = (Resolved (), s')
         \<and> fetchedWords s' = [\<lparr>english = ascii ''cat'', korean = msg_api_key_invalid\<rparr>])
   \<and> fst (fetchAndTranslateWords env_translation_down sample_key 1 (initial_world, initial_state))
     = \<lparr>calls = 3,
        trace = [Delay 1000,
                 Translated (ascii ''cat'') msg_api_key_invalid,
                 TranslateRequest (ascii ''cat'') (Resolved (TranslateNotOk (Resolved
                   (ascii ''API key not valid. Please pass a valid API key.'')))),
                 DictRequest (ascii ''cat'') (Resolved True),
                 WordRequest (Resolved (WordOk (Resolved (ascii ''cat''))))]\<rparr>
   \<and> word_requests (events_since initial_world
        (fst (fetchAndTranslateWords env_translation_down sample_key 1
           (initial_world, initial_state)))) = 1
   \<and> error (snd (fetchAndTranslateWords env_translation_down sample_key 1
        (initial_world, initial_state))) = None
   \<and> error (snd (fetchAndTranslateWords env_source_down sample_key 1
        (initial_world, initial_state))) = Some msg_partial_failure
   \<and> \<not> list_all fetch_side_ok (events_since initial_world
        (fst (fetchAndTranslateWords env_source_down sample_key 1
           (initial_world, initial_state))))"
proof -
  let ?s0 = "\<lparr>net = initial_world, ui = initial_state, fetchedWords = []\<rparr>"
  have split: "ascii ''API key not valid. Please pass a valid API key.''
      = ascii ''API key not valid'' @ ascii ''. Please pass a valid API key.''"
    by (simp add: ascii_def)
  have "\<exists>ps ss. ascii ''Translation API error: ''
           @ ascii ''API key not valid. Please pass a valid API key.''
         = ps @ ascii ''API key not valid'' @ ss"
    unfolding split by blast
  then have c: "translate_catch (Error (ascii ''Translation API error: ''
           @ ascii ''API key not valid. Please pass a valid API key.'')) = msg_api_key_invalid"
    by (simp add: translate_catch_def js_includes_iff)
  have k: "truthy sample_key" by (rule truthy_sample_key)
  have t: "translateEnglishToKorean env_translation_down sample_key (ascii ''cat'') w
      = (Resolved msg_api_key_invalid,
         w\<lparr>calls := calls w + 1,
           trace := [Translated (ascii ''cat'') msg_api_key_invalid,
                     TranslateRequest (ascii ''cat'') (Resolved (TranslateNotOk (Resolved
                       (ascii ''API key not valid. Please pass a valid API key.''))))]
                    @ trace w\<rparr>)" for w
    using k c
    by (simp add: translateEnglishToKorean_def translate_try_def fetch_translate_def
        env_translation_down_def Let_def)
  have run: "fst (fetchAndTranslateWords env_translation_down sample_key 1
       (initial_world, initial_state))
     = \<lparr>calls = 3,
        trace = [Delay 1000,
                 Translated (ascii ''cat'') msg_api_key_invalid,
                 TranslateRequest (ascii ''cat'') (Resolved (TranslateNotOk (Resolved
                   (ascii ''API key not valid. Please pass a valid API key.'')))),
                 DictRequest (ascii ''cat'') (Resolved True),
                 WordRequest (Resolved (WordOk (Resolved (ascii ''cat''))))]\<rparr>"
    by (simp add: fetchAndTranslateWords_def for_slots.simps while_attempts.simps load_try_def
        fetchWordFromAPI_translation_down t MAX_ATTEMPTS_PER_WORD_def Let_def delay_def
        initial_world_def)
  have ok: "list_all fetch_side_ok (events_since initial_world
        (fst (fetchAndTranslateWords env_translation_down sample_key 1
           (initial_world, initial_state))))"
    unfolding run by (simp add: events_since_def initial_world_def)
  have one: "(1::rat) \<le> 1" by simp
  have f: "fetchWordFromAPI env_translation_down 0 (net ?s0)
      = (Resolved (ascii ''cat''),
         initial_world\<lparr>calls := calls initial_world + 2,
           trace := [DictRequest (ascii ''cat'') (Resolved True),
                     WordRequest (Resolved (WordOk (Resolved (ascii ''cat''))))]
                    @ trace initial_world\<rparr>)"
    by (simp add: fetchWordFromAPI_translation_down)
  note good = translation_failure_costs_no_attempt
    [of env_translation_down ?s0 sample_key 1 0 1 initial_world initial_state]
  from good f obtain k' s' where
    a: "load_try env_translation_down sample_key 1 0 ?s0 = (Resolved (), s')"
      "fetchedWords s' = fetchedWords ?s0 @ [\<lparr>english = ascii ''cat'', korean = k'\<rparr>]"
      "fst (translateEnglishToKorean env_translation_down sample_key (ascii ''cat'')
         (initial_world\<lparr>calls := calls initial_world + 2,
           trace := [DictRequest (ascii ''cat'') (Resolved True),
                     WordRequest (Resolved (WordOk (Resolved (ascii ''cat''))))]
                    @ trace initial_world\<rparr>)) = Resolved k'"
    by blast
  from a(3) have "k' = msg_api_key_invalid" by (simp add: t)
  with a(1,2) have part1: "\<exists>s'. load_try env_translation_down sample_key 1 0 ?s0 = (Resolved (), s')
         \<and> fetchedWords s' = [\<lparr>english = ascii ''cat'', korean = msg_api_key_invalid\<rparr>]"
    by simp
  from good one ok have part2: "word_requests (events_since initial_world
        (fst (fetchAndTranslateWords env_translation_down sample_key 1
           (initial_world, initial_state)))) = 1
     \<and> error (snd (fetchAndTranslateWords env_translation_down sample_key 1
        (initial_world, initial_state))) = None"
    by simp
  have bad: "error (snd (fetchAndTranslateWords env_source_down sample_key 1
        (initial_world, initial_state))) = Some msg_partial_failure"
    by (simp add: fetchAndTranslateWords_source_down)
  from translation_failure_costs_no_attempt
    [of env_source_down ?s0 sample_key 1 0 1 initial_world initial_state] one bad
  have part3: "\<not> list_all fetch_side_ok (events_since initial_world
        (fst (fetchAndTranslateWords env_source_down sample_key 1
           (initial_world, initial_state))))"
    by blast
  from part1 run part2 bad part3 show ?thesis by (intro conjI) simp_all
qed

end
